theory Spec2Isabelle
  imports Complex_Main "HOL-Library.Multiset"
begin

section \<open>Values exchanged with the analytics endpoint\<close>

text \<open>
  The endpoint returns flat trader records: a field value is a JSON string, a JSON number
  or null. A record is the parsed Python dict, kept as an association list in insertion
  order (keys are distinct after parsing); \<open>t['k']\<close> raises KeyError when the key is
  absent. Numbers are passed through verbatim by both scripts, so they are kept as
  rationals; the text that the f-strings format from them is not modelled. A number is
  kept by its value: an integer value stands for a Python int, any other value for a
  float. A float whose value is an integer behaves as that int in all that is modelled
  here while its magnitude is below \<open>2 ^ 1017\<close>; larger floats of integer value are not
  covered.
\<close>

datatype jval = JStr string | JNum rat | JNull

type_synonym trader = "(string \<times> jval) list"

datatype py_error = KeyError string | TypeError | ValueError | OverflowError

definition getitem :: "trader \<Rightarrow> string \<Rightarrow> py_error + jval" where
  "getitem t k = (case map_of t k of None \<Rightarrow> Inl (KeyError k) | Some v \<Rightarrow> Inr v)"

text \<open>\<open>t.get(k)\<close>: the value, or None when the key is absent.\<close>

definition get_or_none :: "trader \<Rightarrow> string \<Rightarrow> jval" where
  "get_or_none t k = (case map_of t k of None \<Rightarrow> JNull | Some v \<Rightarrow> v)"

text \<open>
  A format specification ending in \<open>f\<close> converts an int to a float first, which raises
  OverflowError ("int too large to convert to float") when the int does not round to a
  finite double: from \<open>2 ^ 1024 - 2 ^ 970\<close> on, in magnitude.
\<close>

definition int_too_large :: "rat \<Rightarrow> bool" where
  "int_too_large r = (of_int \<lfloor>r\<rfloor> = r \<and> 2 ^ 1024 - 2 ^ 970 \<le> \<bar>r\<bar>)"

text \<open>
  \<open>{v:,.2f}\<close>: the format accepts a number, raises ValueError on a string and TypeError
  on None.
\<close>

definition format_float :: "jval \<Rightarrow> py_error + rat" where
  "format_float v =
     (case v of
        JNum r \<Rightarrow> (if int_too_large r then Inl OverflowError else Inr r)
      | JStr s \<Rightarrow> Inl ValueError
      | JNull \<Rightarrow> Inl TypeError)"

text \<open>
  \<open>{v*100:.1f}\<close>: an int times 100 is an int, which the format then converts; a float
  times 100 is a float (possibly \<open>inf\<close>), which the format accepts; a string times 100
  is a string, on which the format raises ValueError; None times 100 raises TypeError.
  The message keeps \<open>v\<close> itself.
\<close>

definition format_percent :: "jval \<Rightarrow> py_error + rat" where
  "format_percent v =
     (case v of
        JNum r \<Rightarrow> (if int_too_large (r * 100) \<and> of_int \<lfloor>r\<rfloor> = r then Inl OverflowError else Inr r)
      | JStr s \<Rightarrow> Inl ValueError
      | JNull \<Rightarrow> Inl TypeError)"

text \<open>\<open>v[:10]\<close>: only a string can be sliced.\<close>

definition slice10 :: "jval \<Rightarrow> py_error + string" where
  "slice10 v = (case v of JStr s \<Rightarrow> Inr (take 10 s) | JNum r \<Rightarrow> Inl TypeError | JNull \<Rightarrow> Inl TypeError)"

section \<open>The HTTP call\<close>

definition API_URL :: string where
  "API_URL = ''https://polymarketanalytics.com/api/traders-tag-performance''"

text \<open>
  One POST request: the URL, the headers, the keys of the JSON body (an absent key is
  None) and the \<open>timeout\<close> argument.
\<close>

record request =
  url :: string
  headers :: "(string \<times> string) list"
  tag :: string
  page :: nat
  pageSize :: int
  sortBy :: string
  sortDirection :: string
  minWinRate :: "int option"
  minTotalPositions :: "int option"
  timeout :: nat

text \<open>
  What \<open>requests.post\<close> followed by \<open>raise_for_status\<close> and \<open>json()\<close> gives: a
  \<open>RequestException\<close> (transport failure, expired timeout, or a non-2xx status), each
  with its message text, or the parsed body, of which only the \<open>data\<close> key is read
  (None when the body has no such key).
\<close>

datatype request_exception = ConnectionError string | Timeout string | HTTPError string

datatype response = Raises request_exception | Returns "trader list option"

type_synonym network = "request \<Rightarrow> response"

text \<open>\<open>.get('data', [])\<close>\<close>

definition get_data :: "trader list option \<Rightarrow> trader list" where
  "get_data body = (case body of None \<Rightarrow> [] | Some d \<Rightarrow> d)"

section \<open>Effects: files, standard output, requests sent, sleeps\<close>

text \<open>
  A printed line is kept as a structured message holding the values the f-string shows;
  fixed texts are kept as they are.
\<close>

datatype msg =
    Text string
  | Fetching string
  | FetchError request_exception
  | TraderCount nat
  | SummaryCategory string nat
  | SummaryTop jval rat rat
  | SavedTo string
  | LookupSavedTo string
  | UniqueTraders nat
  | CrawlHeader int int
  | PageLine nat nat nat
  | PageError nat request_exception
  | TotalTraders nat
  | TopName nat jval string
  | TopStats rat rat jval

text \<open>The object handed to \<open>json.dump\<close>; a dict keeps its insertion order.\<close>

datatype pyobj = PNone | PNum rat | PStr string | PList "pyobj list" | PDict "(pyobj \<times> pyobj) list"

text \<open>A file written by \<open>json.dump(obj, f, indent=n)\<close> holds the rendering of \<open>obj\<close> at that indent.\<close>

datatype content = JsonDump pyobj nat

record world =
  files :: "string \<rightharpoonup> content"
  stdout :: "msg list"
  sent :: "request list"
  sleeps :: "rat list"

definition print :: "msg \<Rightarrow> world \<Rightarrow> world" where
  "print m w = w\<lparr>stdout := stdout w @ [m]\<rparr>"

definition post :: "network \<Rightarrow> request \<Rightarrow> world \<Rightarrow> response \<times> world" where
  "post net rq w = (net rq, w\<lparr>sent := sent w @ [rq]\<rparr>)"

definition sleep :: "rat \<Rightarrow> world \<Rightarrow> world" where
  "sleep d w = w\<lparr>sleeps := sleeps w @ [d]\<rparr>"

definition write_json :: "string \<Rightarrow> pyobj \<Rightarrow> nat \<Rightarrow> world \<Rightarrow> world" where
  "write_json p obj ind w = w\<lparr>files := (files w)(p \<mapsto> JsonDump obj ind)\<rparr>"

text \<open>\<open>Path(__file__).parent / name\<close>, for a script that lives in \<open>dir\<close>.\<close>

definition script_path :: "string \<Rightarrow> string \<Rightarrow> string" where
  "script_path dir name = dir @ ''/'' @ name"

text \<open>\<open>d[k] = v\<close> on a Python dict: an existing key keeps its place, a new key goes last.\<close>

fun dict_set :: "('k \<times> 'v) list \<Rightarrow> 'k \<Rightarrow> 'v \<Rightarrow> ('k \<times> 'v) list" where
  "dict_set [] k v = [(k, v)]"
| "dict_set ((k', v') # d) k v = (if k' = k then (k', v) # d else (k', v') # dict_set d k v)"

definition py_of_jval :: "jval \<Rightarrow> pyobj" where
  "py_of_jval v = (case v of JStr s \<Rightarrow> PStr s | JNum r \<Rightarrow> PNum r | JNull \<Rightarrow> PNone)"

definition py_of_trader :: "trader \<Rightarrow> pyobj" where
  "py_of_trader t = PDict (map (\<lambda>(k, v). (PStr k, py_of_jval v)) t)"

section \<open>categorize-polymarket-traders.py\<close>

definition CATEGORIES :: "string list" where
  "CATEGORIES = [''Sports'', ''Politics'', ''Crypto'', ''Soccer'', ''Basketball'', ''NFL'',
     ''Tennis'', ''Trump'', ''Elections'', ''Bitcoin'', ''Ethereum'']"

definition category_request :: "string \<Rightarrow> int \<Rightarrow> request" where
  "category_request category limit =
     \<lparr>url = API_URL, headers = [(''Content-Type'', ''application/json'')],
      tag = category, page = 1, pageSize = limit, sortBy = ''pnl'', sortDirection = ''desc'',
      minWinRate = None, minTotalPositions = None, timeout = 30\<rparr>"

definition fetch_traders_by_category :: "network \<Rightarrow> string \<Rightarrow> int \<Rightarrow> world \<Rightarrow> trader list \<times> world" where
  "fetch_traders_by_category net category limit w =
     (case post net (category_request category limit) w of
        (Raises e, w1) \<Rightarrow> ([], print (FetchError e) w1)
      | (Returns body, w1) \<Rightarrow> (get_data body, w1))"

text \<open>The default of the \<open>limit\<close> parameter.\<close>

definition fetch_traders_by_category_default :: "network \<Rightarrow> string \<Rightarrow> world \<Rightarrow> trader list \<times> world" where
  "fetch_traders_by_category_default net category w = fetch_traders_by_category net category 100 w"

type_synonym snapshot = "(string \<times> trader list) list"

text \<open>The loop of lines 59 to 63 over a list of categories, from a dict \<open>categorized\<close>.\<close>

fun fetch_categories :: "network \<Rightarrow> string list \<Rightarrow> snapshot \<Rightarrow> world \<Rightarrow> snapshot \<times> world" where
  "fetch_categories net [] categorized w = (categorized, w)"
| "fetch_categories net (category # rest) categorized w =
     (case fetch_traders_by_category net category 100 (print (Fetching category) w) of
        (traders, w1) \<Rightarrow>
          fetch_categories net rest (dict_set categorized category traders)
            (print (TraderCount (length traders)) w1))"

definition py_of_snapshot :: "snapshot \<Rightarrow> pyobj" where
  "py_of_snapshot s = PDict (map (\<lambda>(c, ts). (PStr c, PList (map py_of_trader ts))) s)"

text \<open>\<open>sorted(categorized.items(), key=lambda x: -len(x[1]))\<close>: a stable sort.\<close>

definition sorted_items :: "snapshot \<Rightarrow> snapshot" where
  "sorted_items categorized = sort_key (\<lambda>x. - int (length (snd x))) categorized"

text \<open>Line 78: the three lookups and the two number formats, left to right.\<close>

definition top_line :: "trader \<Rightarrow> py_error + msg" where
  "top_line t =
     (case getitem t ''trader_name'' of Inl e \<Rightarrow> Inl e | Inr name \<Rightarrow>
     (case getitem t ''overall_gain'' of Inl e \<Rightarrow> Inl e | Inr g \<Rightarrow>
     (case format_float g of Inl e \<Rightarrow> Inl e | Inr gain \<Rightarrow>
     (case getitem t ''win_rate'' of Inl e \<Rightarrow> Inl e | Inr r \<Rightarrow>
     (case format_percent r of Inl e \<Rightarrow> Inl e | Inr wr \<Rightarrow>
      Inr (SummaryTop name gain wr))))))"

text \<open>
  The loop of lines 74 to 78 over the sorted items. An uncaught exception ends the run:
  the result is the exception, if any, and the world as it was left.
\<close>

fun print_summary :: "snapshot \<Rightarrow> world \<Rightarrow> py_error option \<times> world" where
  "print_summary [] w = (None, w)"
| "print_summary ((category, traders) # rest) w =
     (case traders of
        [] \<Rightarrow> print_summary rest w
      | t # _ \<Rightarrow>
          (case top_line t of
             Inl e \<Rightarrow> (Some e, print (SummaryCategory category (length traders)) w)
           | Inr m \<Rightarrow> print_summary rest (print m (print (SummaryCategory category (length traders)) w))))"

record stats =
  pnl :: jval
  win_rate :: jval
  positions :: jval
  rank :: jval

record entry =
  trader_name :: jval
  categories :: "(string \<times> stats) list"

type_synonym lookup = "(jval \<times> entry) list"

text \<open>
  Lines 86 to 97 for one record: the address, a fresh entry when the address is new, the
  right-hand side dict (its lookups left to right), then the store into the entry's
  \<open>categories\<close>. By then the address is a key of the lookup, so reading its entry back
  never fails; the model keeps that branch only to be total.
\<close>

definition add_trader :: "string \<Rightarrow> trader \<Rightarrow> lookup \<Rightarrow> py_error + lookup" where
  "add_trader category t tc =
     (case getitem t ''trader'' of Inl e \<Rightarrow> Inl e | Inr addr \<Rightarrow>
     (case (if addr \<notin> set (map fst tc)
            then (case getitem t ''trader_name'' of Inl e \<Rightarrow> Inl e
                  | Inr name \<Rightarrow> Inr (dict_set tc addr \<lparr>trader_name = name, categories = []\<rparr>))
            else Inr tc) of Inl e \<Rightarrow> Inl e | Inr tc1 \<Rightarrow>
     (case getitem t ''overall_gain'' of Inl e \<Rightarrow> Inl e | Inr g \<Rightarrow>
     (case getitem t ''win_rate'' of Inl e \<Rightarrow> Inl e | Inr r \<Rightarrow>
     (case getitem t ''total_positions'' of Inl e \<Rightarrow> Inl e | Inr p \<Rightarrow>
     (case map_of tc1 addr of None \<Rightarrow> Inl (KeyError ''trader'') | Some en \<Rightarrow>
      Inr (dict_set tc1 addr
             (en\<lparr>categories := dict_set (categories en) category
                    \<lparr>pnl = g, win_rate = r, positions = p, rank = get_or_none t ''rank''\<rparr>\<rparr>))))))))"

fun add_traders :: "string \<Rightarrow> trader list \<Rightarrow> lookup \<Rightarrow> py_error + lookup" where
  "add_traders category [] tc = Inr tc"
| "add_traders category (t # ts) tc =
     (case add_trader category t tc of Inl e \<Rightarrow> Inl e | Inr tc1 \<Rightarrow> add_traders category ts tc1)"

fun add_categories :: "snapshot \<Rightarrow> lookup \<Rightarrow> py_error + lookup" where
  "add_categories [] tc = Inr tc"
| "add_categories ((category, traders) # rest) tc =
     (case add_traders category traders tc of Inl e \<Rightarrow> Inl e | Inr tc1 \<Rightarrow> add_categories rest tc1)"

text \<open>Lines 83 to 97: the lookup by trader address, from the empty dict.\<close>

definition trader_categories :: "snapshot \<Rightarrow> py_error + lookup" where
  "trader_categories categorized = add_categories categorized []"

definition py_of_stats :: "stats \<Rightarrow> pyobj" where
  "py_of_stats s = PDict [(PStr ''pnl'', py_of_jval (pnl s)), (PStr ''win_rate'', py_of_jval (win_rate s)),
     (PStr ''positions'', py_of_jval (positions s)), (PStr ''rank'', py_of_jval (rank s))]"

definition py_of_entry :: "entry \<Rightarrow> pyobj" where
  "py_of_entry e = PDict [(PStr ''trader_name'', py_of_jval (trader_name e)),
     (PStr ''categories'', PDict (map (\<lambda>(c, s). (PStr c, py_of_stats s)) (categories e)))]"

definition py_of_lookup :: "lookup \<Rightarrow> pyobj" where
  "py_of_lookup tc = PDict (map (\<lambda>(a, e). (py_of_jval a, py_of_entry e)) tc)"

definition rule60 :: "char \<Rightarrow> msg" where
  "rule60 c = Text (replicate 60 c)"

text \<open>\<open>main\<close> of the category script, run from directory \<open>dir\<close>.\<close>

definition categorize_main :: "network \<Rightarrow> string \<Rightarrow> world \<Rightarrow> py_error option \<times> world" where
  "categorize_main net dir w =
     (case fetch_categories net CATEGORIES []
             (print (rule60 CHR ''='')
               (print (Text ''Categorizing traders by market category (Top 100 per category)'') w)) of
        (categorized, w1) \<Rightarrow>
     (case print_summary (sorted_items categorized)
             (print (rule60 CHR ''='') (print (Text ''SUMMARY'') (print (rule60 CHR ''='')
               (write_json (script_path dir ''traders-by-category.json'') (py_of_snapshot categorized) 2 w1)))) of
        (Some e, w2) \<Rightarrow> (Some e, w2)
      | (None, w2) \<Rightarrow>
     (case trader_categories categorized of
        Inl e \<Rightarrow> (Some e, print (SavedTo (script_path dir ''traders-by-category.json'')) w2)
      | Inr tc \<Rightarrow>
          (None,
           print (UniqueTraders (length tc))
             (print (LookupSavedTo (script_path dir ''traders-category-lookup.json''))
               (write_json (script_path dir ''traders-category-lookup.json'') (py_of_lookup tc) 2
                 (print (SavedTo (script_path dir ''traders-by-category.json'')) w2)))))))"

section \<open>crawl-polymarket-traders.py\<close>

definition crawl_request :: "int \<Rightarrow> int \<Rightarrow> int \<Rightarrow> nat \<Rightarrow> request" where
  "crawl_request min_win_rate min_positions page_size pg =
     \<lparr>url = API_URL, headers = [(''Content-Type'', ''application/json'')],
      tag = ''Overall'', page = pg, pageSize = page_size, sortBy = ''pnl'', sortDirection = ''desc'',
      minWinRate = Some min_win_rate, minTotalPositions = Some min_positions, timeout = 30\<rparr>"

text \<open>
  The \<open>while True\<close> loop of lines 32 to 68, from page \<open>pg\<close> with accumulator
  \<open>all_traders\<close>. The loop has no bound of its own: a run that never leaves it is None.
\<close>

partial_function (option) crawl_loop ::
  "network \<Rightarrow> int \<Rightarrow> int \<Rightarrow> int \<Rightarrow> nat \<Rightarrow> trader list \<Rightarrow> world \<Rightarrow> (trader list \<times> world) option" where
  "crawl_loop net min_win_rate min_positions page_size pg all_traders w =
     (case post net (crawl_request min_win_rate min_positions page_size pg) w of
        (Raises e, w1) \<Rightarrow> Some (all_traders, print (PageError pg e) w1)
      | (Returns body, w1) \<Rightarrow>
          (if get_data body = [] then Some (all_traders, w1)
           else if int (length (get_data body)) < page_size
             then Some (all_traders @ get_data body,
                        print (PageLine pg (length (get_data body)) (length (all_traders @ get_data body))) w1)
             else crawl_loop net min_win_rate min_positions page_size (pg + 1) (all_traders @ get_data body)
                    (sleep (1 / 2)
                      (print (PageLine pg (length (get_data body)) (length (all_traders @ get_data body))) w1))))"

definition crawl_traders :: "network \<Rightarrow> int \<Rightarrow> int \<Rightarrow> int \<Rightarrow> world \<Rightarrow> (trader list \<times> world) option" where
  "crawl_traders net min_win_rate min_positions page_size w =
     crawl_loop net min_win_rate min_positions page_size 1 []
       (print (rule60 CHR ''-'') (print (CrawlHeader min_win_rate min_positions) w))"

text \<open>Lines 94 and 95 for the \<open>i\<close>-th trader: each line's lookups happen before it is printed.\<close>

definition top_name_line :: "nat \<Rightarrow> trader \<Rightarrow> py_error + msg" where
  "top_name_line i t =
     (case getitem t ''trader_name'' of Inl e \<Rightarrow> Inl e | Inr name \<Rightarrow>
     (case getitem t ''trader'' of Inl e \<Rightarrow> Inl e | Inr a \<Rightarrow>
     (case slice10 a of Inl e \<Rightarrow> Inl e | Inr a10 \<Rightarrow>
      Inr (TopName i name a10))))"

definition top_stats_line :: "trader \<Rightarrow> py_error + msg" where
  "top_stats_line t =
     (case getitem t ''overall_gain'' of Inl e \<Rightarrow> Inl e | Inr g \<Rightarrow>
     (case format_float g of Inl e \<Rightarrow> Inl e | Inr gain \<Rightarrow>
     (case getitem t ''win_rate'' of Inl e \<Rightarrow> Inl e | Inr r \<Rightarrow>
     (case format_percent r of Inl e \<Rightarrow> Inl e | Inr wr \<Rightarrow>
     (case getitem t ''total_positions'' of Inl e \<Rightarrow> Inl e | Inr p \<Rightarrow>
      Inr (TopStats gain wr p))))))"

text \<open>The loop of lines 93 to 95 over \<open>enumerate(traders[:5], i)\<close>.\<close>

fun print_top :: "nat \<Rightarrow> trader list \<Rightarrow> world \<Rightarrow> py_error option \<times> world" where
  "print_top i [] w = (None, w)"
| "print_top i (t # ts) w =
     (case top_name_line i t of
        Inl e \<Rightarrow> (Some e, w)
      | Inr m1 \<Rightarrow>
          (case top_stats_line t of
             Inl e \<Rightarrow> (Some e, print m1 w)
           | Inr m2 \<Rightarrow> print_top (i + 1) ts (print m2 (print m1 w))))"

text \<open>
  \<open>main\<close> of the crawler, run from directory \<open>dir\<close>: None when the crawl never returns,
  else the uncaught exception, if any, and the world as it was left.
\<close>

definition crawl_main :: "network \<Rightarrow> string \<Rightarrow> world \<Rightarrow> (py_error option \<times> world) option" where
  "crawl_main net dir w =
     (case crawl_traders net 67 30 100 w of
        None \<Rightarrow> None
      | Some (traders, w1) \<Rightarrow>
          (if traders = [] then Some (None, print (Text ''No traders found matching criteria.'') w1)
           else Some (print_top 1 (take 5 traders)
                  (print (rule60 CHR ''-'') (print (Text ''Top 5 Traders by PnL:'')
                    (print (SavedTo (script_path dir ''traders.json''))
                      (print (TotalTraders (length traders)) (print (rule60 CHR ''-'')
                        (write_json (script_path dir ''traders.json'') (PList (map py_of_trader traders)) 2 w1)))))))))"

section \<open>Notions used in the statements\<close>

text \<open>The list a response stands for in either script: empty for an exception.\<close>

definition payload :: "response \<Rightarrow> trader list" where
  "payload r = (case r of Raises e \<Rightarrow> [] | Returns body \<Rightarrow> get_data body)"

text \<open>The snapshot that the category loop is shown to build.\<close>

definition snapshot_of :: "network \<Rightarrow> snapshot" where
  "snapshot_of net = map (\<lambda>c. (c, payload (net (category_request c 100)))) CATEGORIES"

text \<open>A fresh world: no file, nothing printed, nothing sent.\<close>

definition world0 :: world where
  "world0 = \<lparr>files = Map.empty, stdout = [], sent = [], sleeps = []\<rparr>"

text \<open>The crawl loop goes on to the next page: the page is neither empty nor short.\<close>

definition continues :: "int \<Rightarrow> response \<Rightarrow> bool" where
  "continues page_size r =
     (case r of Raises e \<Rightarrow> False
      | Returns body \<Rightarrow> get_data body \<noteq> [] \<and> \<not> int (length (get_data body)) < page_size)"

text \<open>The records of a snapshot with their category, in the order the nested loop visits them.\<close>

definition records :: "snapshot \<Rightarrow> (string \<times> trader) list" where
  "records categorized = concat (map (\<lambda>(c, ts). map (Pair c) ts) categorized)"

text \<open>The nested loop of lines 84 to 97 as one loop over these records.\<close>

fun add_records :: "(string \<times> trader) list \<Rightarrow> lookup \<Rightarrow> py_error + lookup" where
  "add_records [] tc = Inr tc"
| "add_records ((c, t) # xs) tc =
     (case add_trader c t tc of Inl e \<Rightarrow> Inl e | Inr tc1 \<Rightarrow> add_records xs tc1)"

text \<open>Some record of the list carries the address.\<close>

definition has_address :: "jval \<Rightarrow> trader list \<Rightarrow> bool" where
  "has_address a ts = (\<exists>t \<in> set ts. map_of t ''trader'' = Some a)"

text \<open>The keys that both scripts read with \<open>t[...]\<close>.\<close>

definition expected_keys :: "string list" where
  "expected_keys = [''trader'', ''trader_name'', ''overall_gain'', ''win_rate'', ''total_positions'']"

definition has_expected_keys :: "trader \<Rightarrow> bool" where
  "has_expected_keys t = list_all (\<lambda>k. map_of t k \<noteq> None) expected_keys"

text \<open>The two files the category script writes.\<close>

definition snapshot_path :: "string \<Rightarrow> string" where
  "snapshot_path dir = script_path dir ''traders-by-category.json''"

definition lookup_path :: "string \<Rightarrow> string" where
  "lookup_path dir = script_path dir ''traders-category-lookup.json''"

text \<open>
  A summary line \<open>m\<close> shows the first trader of the list: its name, its \<open>overall_gain\<close> and
  its \<open>win_rate\<close>.
\<close>

definition shows_top :: "trader list \<Rightarrow> msg \<Rightarrow> bool" where
  "shows_top ts m =
     (case ts of [] \<Rightarrow> False
      | t # _ \<Rightarrow>
          (case m of
             SummaryTop n g r \<Rightarrow>
               map_of t ''trader_name'' = Some n \<and> map_of t ''overall_gain'' = Some (JNum g)
               \<and> map_of t ''win_rate'' = Some (JNum r)
           | _ \<Rightarrow> False))"

subsection \<open>Concrete inputs\<close>

definition mk_trader :: "string \<Rightarrow> string \<Rightarrow> rat \<Rightarrow> rat \<Rightarrow> rat \<Rightarrow> trader" where
  "mk_trader a n g r p =
     [(''trader'', JStr a), (''trader_name'', JStr n), (''overall_gain'', JNum g),
      (''win_rate'', JNum r), (''total_positions'', JNum p)]"

definition alice :: trader where "alice = mk_trader ''0xa11ce'' ''alice'' 900 (3/4) 40"

definition bob :: trader where "bob = mk_trader ''0xb0b'' ''bob'' 800 (7/10) 50"

definition carol :: trader where "carol = mk_trader ''0xca401'' ''carol'' 700 (4/5) 31"

definition dave :: trader where "dave = mk_trader ''0xda7e'' ''dave'' 600 (9/10) 35"

definition erin :: trader where "erin = mk_trader ''0xe414'' ''erin'' 500 (17/25) 60"

text \<open>Two full pages of two records, then a page with one record.\<close>

definition three_pages :: network where
  "three_pages rq =
     (if page rq = 1 then Returns (Some [alice, bob])
      else if page rq = 2 then Returns (Some [carol, dave])
      else if page rq = 3 then Returns (Some [erin])
      else Returns (Some []))"

text \<open>Two full pages, then the third request fails.\<close>

definition third_page_fails :: network where
  "third_page_fails rq =
     (if page rq = 1 then Returns (Some [alice, bob])
      else if page rq = 2 then Returns (Some [carol, dave])
      else Raises (HTTPError ''502 Server Error''))"

text \<open>Every category answers with one record, except Politics, whose request fails.\<close>

definition politics_down :: network where
  "politics_down rq =
     (if tag rq = ''Politics'' then Raises (HTTPError ''500 Server Error'')
      else Returns (Some [alice]))"

text \<open>A snapshot in which one address occurs in two categories, under two names.\<close>

definition alice_politics :: trader where
  "alice_politics = mk_trader ''0xa11ce'' ''Alice P.'' 120 (3/5) 12 @ [(''rank'', JNum 7)]"

definition two_categories :: snapshot where
  "two_categories = [(''Sports'', [alice, bob]), (''Politics'', [alice_politics])]"

definition two_categories_lookup :: lookup where
  "two_categories_lookup =
     [(JStr ''0xa11ce'',
       \<lparr>trader_name = JStr ''alice'',
        categories =
          [(''Sports'', \<lparr>pnl = JNum 900, win_rate = JNum (3/4), positions = JNum 40, rank = JNull\<rparr>),
           (''Politics'', \<lparr>pnl = JNum 120, win_rate = JNum (3/5), positions = JNum 12, rank = JNum 7\<rparr>)]\<rparr>),
      (JStr ''0xb0b'',
       \<lparr>trader_name = JStr ''bob'',
        categories =
          [(''Sports'', \<lparr>pnl = JNum 800, win_rate = JNum (7/10), positions = JNum 50, rank = JNull\<rparr>)]\<rparr>)]"

text \<open>The lookup after the Sports category of that snapshot.\<close>

definition sports_lookup :: lookup where
  "sports_lookup =
     [(JStr ''0xa11ce'',
       \<lparr>trader_name = JStr ''alice'',
        categories =
          [(''Sports'', \<lparr>pnl = JNum 900, win_rate = JNum (3/4), positions = JNum 40, rank = JNull\<rparr>)]\<rparr>),
      (JStr ''0xb0b'',
       \<lparr>trader_name = JStr ''bob'',
        categories =
          [(''Sports'', \<lparr>pnl = JNum 800, win_rate = JNum (7/10), positions = JNum 50, rank = JNull\<rparr>)]\<rparr>)]"

text \<open>As \<open>politics_down\<close>, but the Politics request runs into its deadline.\<close>

definition politics_timeout :: network where
  "politics_timeout rq =
     (if tag rq = ''Politics'' then Raises (Timeout ''Read timed out. (read timeout=30)'')
      else Returns (Some [alice]))"

text \<open>A snapshot with an empty category.\<close>

definition three_categories :: snapshot where
  "three_categories = [(''Sports'', [alice]), (''Politics'', []), (''Crypto'', [bob, carol])]"

text \<open>\<open>del t[k]\<close>\<close>

definition without :: "string \<Rightarrow> trader \<Rightarrow> trader" where
  "without k t = filter (\<lambda>(k', v). k' \<noteq> k) t"

text \<open>Only Sports has a trader: the one record \<open>t\<close>.\<close>

definition sports_only :: "trader \<Rightarrow> network" where
  "sports_only t rq = (if tag rq = ''Sports'' then Returns (Some [t]) else Returns (Some []))"

text \<open>The first page of the crawl holds the one record \<open>t\<close>.\<close>

definition single_page :: "trader \<Rightarrow> network" where
  "single_page t rq = (if page rq = 1 then Returns (Some [t]) else Returns (Some []))"

text \<open>A record whose \<open>overall_gain\<close> is an int beyond the range of a double.\<close>

definition big_gain :: trader where
  "big_gain = mk_trader ''0xb16'' ''big'' (2 ^ 1024) (3/4) 40"

text \<open>No trader matches the filters of the crawl.\<close>

definition no_matches :: network where
  "no_matches rq = Returns (Some [])"

section \<open>The category fetcher: requests and the snapshot\<close>

lemma fetch_fst: "fst (fetch_traders_by_category net c l w) = payload (net (category_request c l))"
  by (simp add: fetch_traders_by_category_def post_def payload_def split: response.splits)

lemma fetch_sent: "sent (snd (fetch_traders_by_category net c l w)) = sent w @ [category_request c l]"
  by (simp add: fetch_traders_by_category_def post_def print_def split: response.splits)

lemma fetch_files: "files (snd (fetch_traders_by_category net c l w)) = files w"
  by (simp add: fetch_traders_by_category_def post_def print_def split: response.splits)

lemma fetch_categories_fst:
  "fst (fetch_categories net cs d w) =
     fold (\<lambda>c d. dict_set d c (payload (net (category_request c 100)))) cs d"
proof (induction cs arbitrary: d w)
  case Nil
  show ?case by simp
next
  case (Cons c cs)
  obtain ts w1 where f: "fetch_traders_by_category net c 100 (print (Fetching c) w) = (ts, w1)"
    by (cases "fetch_traders_by_category net c 100 (print (Fetching c) w)")
  from f fetch_fst[of net c 100 "print (Fetching c) w"]
  have "ts = payload (net (category_request c 100))" by simp
  with f Cons.IH show ?case by simp
qed

lemma fetch_categories_sent:
  "sent (snd (fetch_categories net cs d w)) = sent w @ map (\<lambda>c. category_request c 100) cs"
proof (induction cs arbitrary: d w)
  case Nil
  show ?case by simp
next
  case (Cons c cs)
  obtain ts w1 where f: "fetch_traders_by_category net c 100 (print (Fetching c) w) = (ts, w1)"
    by (cases "fetch_traders_by_category net c 100 (print (Fetching c) w)")
  from f fetch_sent[of net c 100 "print (Fetching c) w"]
  have "sent w1 = sent w @ [category_request c 100]" by (simp add: print_def)
  with f Cons.IH show ?case by (simp add: print_def)
qed

lemma fetch_categories_files:
  "files (snd (fetch_categories net cs d w)) = files w"
proof (induction cs arbitrary: d w)
  case Nil
  show ?case by simp
next
  case (Cons c cs)
  obtain ts w1 where f: "fetch_traders_by_category net c 100 (print (Fetching c) w) = (ts, w1)"
    by (cases "fetch_traders_by_category net c 100 (print (Fetching c) w)")
  from f fetch_files[of net c 100 "print (Fetching c) w"]
  have "files w1 = files w" by (simp add: print_def)
  with f Cons.IH show ?case by (simp add: print_def)
qed

lemma dict_set_fresh: "k \<notin> fst ` set d \<Longrightarrow> dict_set d k v = d @ [(k, v)]"
  by (induction d) auto

lemma fold_dict_set_distinct:
  "distinct cs \<Longrightarrow> set cs \<inter> fst ` set d = {} \<Longrightarrow>
   fold (\<lambda>c d. dict_set d c (f c)) cs d = d @ map (\<lambda>c. (c, f c)) cs"
proof (induction cs arbitrary: d)
  case Nil
  show ?case by simp
next
  case (Cons c cs)
  from Cons.prems have fresh: "c \<notin> fst ` set d" by auto
  have "set cs \<inter> fst ` set (d @ [(c, f c)]) = {}" using Cons.prems by auto
  with Cons.IH[of "d @ [(c, f c)]"] Cons.prems fresh show ?case
    by (simp add: dict_set_fresh)
qed

lemma distinct_CATEGORIES: "distinct CATEGORIES"
  by (simp add: CATEGORIES_def)

lemma fetch_CATEGORIES_fst:
  "fst (fetch_categories net CATEGORIES [] w) = snapshot_of net"
  using fold_dict_set_distinct[OF distinct_CATEGORIES, of "[]"]
  by (simp add: fetch_categories_fst snapshot_of_def)

text \<open>
  C7. For every category, \<open>fetch_traders_by_category\<close> sends exactly one request: page 1,
  \<open>pageSize\<close> the \<open>limit\<close> argument (100 by default), sorted by \<open>pnl\<close> descending,
  neither \<open>minWinRate\<close> nor \<open>minTotalPositions\<close> in the body, and \<open>timeout=30\<close>. When
  that deadline expires the call raises \<open>Timeout\<close>, and the category's result is the
  empty list.
\<close>

theorem fetch_request_shape:
  "sent (snd (fetch_traders_by_category net category limit w)) = sent w @
     [\<lparr>url = API_URL, headers = [(''Content-Type'', ''application/json'')],
       tag = category, page = 1, pageSize = limit, sortBy = ''pnl'', sortDirection = ''desc'',
       minWinRate = None, minTotalPositions = None, timeout = 30\<rparr>]
   \<and> fetch_traders_by_category_default net category w = fetch_traders_by_category net category 100 w
   \<and> (net (category_request category limit) = Raises (Timeout m) \<longrightarrow>
        fst (fetch_traders_by_category net category limit w) = [])"
  by (simp add: fetch_sent fetch_fst payload_def fetch_traders_by_category_default_def
        category_request_def)

theorem fetch_request_shape_witness:
  "sent (snd (fetch_traders_by_category (\<lambda>rq. Raises (Timeout ''read timed out'')) ''Sports'' 100 world0)) =
     [\<lparr>url = API_URL, headers = [(''Content-Type'', ''application/json'')],
       tag = ''Sports'', page = 1, pageSize = 100, sortBy = ''pnl'', sortDirection = ''desc'',
       minWinRate = None, minTotalPositions = None, timeout = 30\<rparr>]
   \<and> fst (fetch_traders_by_category (\<lambda>rq. Raises (Timeout ''read timed out'')) ''Sports'' 100 world0) = []"
  using fetch_request_shape [of "\<lambda>rq. Raises (Timeout ''read timed out'')" "''Sports''" 100 world0 "''read timed out''"]
  by (simp add: world0_def)

text \<open>
  C1. If the request of a category of the fixed list fails, \<open>fetch_traders_by_category\<close>
  returns the empty list and the snapshot records the empty list for it. Whatever fails,
  the loop sends one request per category, in order, and the snapshot has every category
  as a key; each category's entry is the list of its own response, so it is the same under
  any other network that answers this category's request alike.
\<close>

theorem category_failure_isolated:
  "(c \<in> set CATEGORIES \<and> net (category_request c 100) = Raises e \<longrightarrow>
      fst (fetch_traders_by_category net c 100 w0) = []
      \<and> map_of (fst (fetch_categories net CATEGORIES [] w)) c = Some [])
   \<and> map fst (fst (fetch_categories net CATEGORIES [] w)) = CATEGORIES
   \<and> sent (snd (fetch_categories net CATEGORIES [] w)) = sent w @ map (\<lambda>c. category_request c 100) CATEGORIES
   \<and> (\<forall>c' \<in> set CATEGORIES.
        map_of (fst (fetch_categories net CATEGORIES [] w)) c' = Some (payload (net (category_request c' 100))))
   \<and> (\<forall>c' \<in> set CATEGORIES. net' (category_request c' 100) = net (category_request c' 100) \<longrightarrow>
        map_of (fst (fetch_categories net' CATEGORIES [] w')) c' =
        map_of (fst (fetch_categories net CATEGORIES [] w)) c')"
proof -
  have m: "map_of (snapshot_of n) c' = Some (payload (n (category_request c' 100)))"
    if "c' \<in> set CATEGORIES" for n c'
    using that unfolding snapshot_of_def by (simp add: map_of_map_restrict)
  have k: "map fst (snapshot_of n) = CATEGORIES" for n
    unfolding snapshot_of_def by (simp add: comp_def)
  show ?thesis
    by (simp add: fetch_CATEGORIES_fst fetch_categories_sent fetch_fst m k payload_def)
qed

theorem category_failure_isolated_witness:
  "''Politics'' \<in> set CATEGORIES
   \<and> politics_down (category_request ''Politics'' 100) = Raises (HTTPError ''500 Server Error'')
   \<and> fst (fetch_traders_by_category politics_down ''Politics'' 100 world0) = []
   \<and> map_of (fst (fetch_categories politics_down CATEGORIES [] world0)) ''Politics'' = Some []
   \<and> map_of (fst (fetch_categories politics_down CATEGORIES [] world0)) ''Sports'' = Some [alice]
   \<and> map_of (fst (fetch_categories politics_down CATEGORIES [] world0)) ''Ethereum'' = Some [alice]"
  using category_failure_isolated [of "''Politics''" politics_down "HTTPError ''500 Server Error''"
      world0 world0 politics_down world0]
  by (simp add: CATEGORIES_def politics_down_def category_request_def payload_def get_data_def)

section \<open>The lookup by trader address\<close>

text \<open>What a store does to the keys and to the lookups of a dict.\<close>

lemma map_fst_dict_set:
  "map fst (dict_set d k v) = (if k \<in> fst ` set d then map fst d else map fst d @ [k])"
proof (induction d)
  case Nil
  show ?case by simp
next
  case (Cons x d)
  obtain k' v' where x: "x = (k', v')" by (cases x)
  show ?case using Cons.IH unfolding x by (cases "k' = k") auto
qed

lemma map_of_dict_set: "map_of (dict_set d k v) = (map_of d)(k \<mapsto> v)"
  by (induction d) (auto simp: fun_eq_iff)

lemma keys_dict_set: "fst ` set (dict_set d k v) = insert k (fst ` set d)"
proof -
  have "set (map fst (dict_set d k v)) = insert k (set (map fst d))"
    unfolding map_fst_dict_set by auto
  then show ?thesis by simp
qed

lemma distinct_dict_set: "distinct (map fst (dict_set d k v)) = distinct (map fst d)"
  unfolding map_fst_dict_set by simp

text \<open>One record: what \<open>add_trader\<close> does to the lookup.\<close>

lemma add_trader_shape:
  assumes "add_trader c t tc = Inr tc'"
  shows "\<exists>a g r p. map_of t ''trader'' = Some a
     \<and> map_of t ''overall_gain'' = Some g \<and> map_of t ''win_rate'' = Some r
     \<and> map_of t ''total_positions'' = Some p
     \<and> (case map_of tc a of
          Some e \<Rightarrow> tc' = dict_set tc a
              (e\<lparr>categories := dict_set (categories e) c
                  \<lparr>pnl = g, win_rate = r, positions = p, rank = get_or_none t ''rank''\<rparr>\<rparr>)
        | None \<Rightarrow> \<exists>n. map_of t ''trader_name'' = Some n \<and>
            tc' = dict_set (dict_set tc a \<lparr>trader_name = n, categories = []\<rparr>) a
              \<lparr>trader_name = n, categories = [(c, \<lparr>pnl = g, win_rate = r, positions = p,
                   rank = get_or_none t ''rank''\<rparr>)]\<rparr>)"
proof -
  from assms obtain a where a: "map_of t ''trader'' = Some a"
    by (auto simp: add_trader_def getitem_def split: option.splits)
  show ?thesis
  proof (cases "map_of tc a")
    case None
    then have notin: "a \<notin> fst ` set tc" by (simp add: map_of_eq_None_iff)
    with assms a None show ?thesis
      by (simp add: add_trader_def getitem_def map_of_dict_set
          split: option.splits sum.splits if_splits)
  next
    case (Some e)
    then have "a \<in> fst ` set tc" by (metis map_of_eq_None_iff option.distinct(1))
    with assms a Some show ?thesis
      by (simp add: add_trader_def getitem_def map_of_dict_set
          split: option.splits sum.splits if_splits)
  qed
qed

lemma add_trader_Inr:
  assumes "add_trader c t tc = Inr tc'"
  shows "\<exists>a g r p. map_of t ''trader'' = Some a
     \<and> map_of t ''overall_gain'' = Some g \<and> map_of t ''win_rate'' = Some r
     \<and> map_of t ''total_positions'' = Some p
     \<and> fst ` set tc' = insert a (fst ` set tc)
     \<and> distinct (map fst tc') = distinct (map fst tc)
     \<and> (case map_of tc a of
          Some e \<Rightarrow> map_of tc' = (map_of tc)(a \<mapsto>
              e\<lparr>categories := dict_set (categories e) c
                  \<lparr>pnl = g, win_rate = r, positions = p, rank = get_or_none t ''rank''\<rparr>\<rparr>)
        | None \<Rightarrow> \<exists>n. map_of t ''trader_name'' = Some n \<and>
            map_of tc' = (map_of tc)(a \<mapsto>
              \<lparr>trader_name = n, categories = [(c, \<lparr>pnl = g, win_rate = r, positions = p,
                   rank = get_or_none t ''rank''\<rparr>)]\<rparr>))"
proof -
  from add_trader_shape[OF assms] obtain a g r p where
    f: "map_of t ''trader'' = Some a" "map_of t ''overall_gain'' = Some g"
       "map_of t ''win_rate'' = Some r" "map_of t ''total_positions'' = Some p"
    and sh: "(case map_of tc a of
          Some e \<Rightarrow> tc' = dict_set tc a
              (e\<lparr>categories := dict_set (categories e) c
                  \<lparr>pnl = g, win_rate = r, positions = p, rank = get_or_none t ''rank''\<rparr>\<rparr>)
        | None \<Rightarrow> \<exists>n. map_of t ''trader_name'' = Some n \<and>
            tc' = dict_set (dict_set tc a \<lparr>trader_name = n, categories = []\<rparr>) a
              \<lparr>trader_name = n, categories = [(c, \<lparr>pnl = g, win_rate = r, positions = p,
                   rank = get_or_none t ''rank''\<rparr>)]\<rparr>)"
    by blast
  have "fst ` set tc' = insert a (fst ` set tc) \<and> distinct (map fst tc') = distinct (map fst tc)
     \<and> (case map_of tc a of
          Some e \<Rightarrow> map_of tc' = (map_of tc)(a \<mapsto>
              e\<lparr>categories := dict_set (categories e) c
                  \<lparr>pnl = g, win_rate = r, positions = p, rank = get_or_none t ''rank''\<rparr>\<rparr>)
        | None \<Rightarrow> \<exists>n. map_of t ''trader_name'' = Some n \<and>
            map_of tc' = (map_of tc)(a \<mapsto>
              \<lparr>trader_name = n, categories = [(c, \<lparr>pnl = g, win_rate = r, positions = p,
                   rank = get_or_none t ''rank''\<rparr>)]\<rparr>))"
  proof (cases "map_of tc a")
    case None
    with sh obtain n where n: "map_of t ''trader_name'' = Some n"
      and tc': "tc' = dict_set (dict_set tc a \<lparr>trader_name = n, categories = []\<rparr>) a
              \<lparr>trader_name = n, categories = [(c, \<lparr>pnl = g, win_rate = r, positions = p,
                   rank = get_or_none t ''rank''\<rparr>)]\<rparr>"
      by auto
    show ?thesis unfolding tc' using None n
      by (simp add: keys_dict_set distinct_dict_set map_of_dict_set)
  next
    case (Some e)
    then have in_keys: "a \<in> fst ` set tc" by (metis map_of_eq_None_iff option.distinct(1))
    from sh Some have tc': "tc' = dict_set tc a
              (e\<lparr>categories := dict_set (categories e) c
                  \<lparr>pnl = g, win_rate = r, positions = p, rank = get_or_none t ''rank''\<rparr>\<rparr>)"
      by simp
    show ?thesis unfolding tc' using Some in_keys
      by (simp add: keys_dict_set distinct_dict_set map_of_dict_set insert_absorb)
  qed
  with f show ?thesis by blast
qed

lemma add_traders_records: "add_traders c ts tc = add_records (map (Pair c) ts) tc"
  by (induction ts arbitrary: tc) (auto split: sum.splits)

lemma add_records_append:
  "add_records (xs @ ys) tc =
     (case add_records xs tc of Inl e \<Rightarrow> Inl e | Inr tc1 \<Rightarrow> add_records ys tc1)"
  by (induction xs arbitrary: tc) (auto split: sum.splits)

lemma add_categories_records: "add_categories cz tc = add_records (records cz) tc"
  by (induction cz arbitrary: tc)
     (auto simp: records_def add_traders_records add_records_append split: sum.splits)

lemma add_records_keys:
  "add_records xs tc = Inr tc' \<Longrightarrow>
   fst ` set tc' = fst ` set tc \<union> {a. \<exists>c t. (c, t) \<in> set xs \<and> map_of t ''trader'' = Some a}"
proof (induction xs arbitrary: tc)
  case Nil
  then show ?case by simp
next
  case (Cons x xs)
  obtain c t where x: "x = (c, t)" by (cases x)
  from Cons.prems x obtain tc1 where s: "add_trader c t tc = Inr tc1" and r: "add_records xs tc1 = Inr tc'"
    by (auto split: sum.splits)
  from add_trader_Inr[OF s] obtain a where a: "map_of t ''trader'' = Some a"
    and k: "fst ` set tc1 = insert a (fst ` set tc)" by blast
  from Cons.IH[OF r] k a show ?case unfolding x by auto
qed

lemma add_records_distinct:
  "add_records xs tc = Inr tc' \<Longrightarrow> distinct (map fst tc') = distinct (map fst tc)"
proof (induction xs arbitrary: tc)
  case Nil
  then show ?case by simp
next
  case (Cons x xs)
  obtain c t where x: "x = (c, t)" by (cases x)
  from Cons.prems x obtain tc1 where s: "add_trader c t tc = Inr tc1" and r: "add_records xs tc1 = Inr tc'"
    by (auto split: sum.splits)
  from add_trader_Inr[OF s] have "distinct (map fst tc1) = distinct (map fst tc)" by blast
  with Cons.IH[OF r] show ?case by simp
qed

text \<open>An entry that is already there keeps its name and gains category keys only.\<close>

lemma add_records_old:
  "add_records xs tc = Inr tc' \<Longrightarrow> map_of tc a = Some e \<Longrightarrow>
   \<exists>e'. map_of tc' a = Some e' \<and> trader_name e' = trader_name e
      \<and> fst ` set (categories e') =
          fst ` set (categories e) \<union> {c. \<exists>t. (c, t) \<in> set xs \<and> map_of t ''trader'' = Some a}
      \<and> distinct (map fst (categories e')) = distinct (map fst (categories e))"
proof (induction xs arbitrary: tc e)
  case Nil
  then show ?case by simp
next
  case (Cons x xs)
  obtain c t where x: "x = (c, t)" by (cases x)
  from Cons.prems x obtain tc1 where s: "add_trader c t tc = Inr tc1" and r: "add_records xs tc1 = Inr tc'"
    by (auto split: sum.splits)
  from add_trader_Inr[OF s] obtain a0 g r0 p where a0: "map_of t ''trader'' = Some a0"
    and m: "(case map_of tc a0 of
          Some e \<Rightarrow> map_of tc1 = (map_of tc)(a0 \<mapsto>
              e\<lparr>categories := dict_set (categories e) c
                  \<lparr>pnl = g, win_rate = r0, positions = p, rank = get_or_none t ''rank''\<rparr>\<rparr>)
        | None \<Rightarrow> \<exists>n. map_of t ''trader_name'' = Some n \<and>
            map_of tc1 = (map_of tc)(a0 \<mapsto>
              \<lparr>trader_name = n, categories = [(c, \<lparr>pnl = g, win_rate = r0, positions = p,
                   rank = get_or_none t ''rank''\<rparr>)]\<rparr>))"
    by blast
  show ?case
  proof (cases "a0 = a")
    case True
    let ?e1 = "e\<lparr>categories := dict_set (categories e) c
                  \<lparr>pnl = g, win_rate = r0, positions = p, rank = get_or_none t ''rank''\<rparr>\<rparr>"
    from m True Cons.prems(2) have "map_of tc1 a = Some ?e1" by simp
    from Cons.IH[OF r this] obtain e' where e': "map_of tc' a = Some e'"
      "trader_name e' = trader_name ?e1"
      "fst ` set (categories e') =
          fst ` set (categories ?e1) \<union> {c. \<exists>t. (c, t) \<in> set xs \<and> map_of t ''trader'' = Some a}"
      "distinct (map fst (categories e')) = distinct (map fst (categories ?e1))"
      by blast
    have "fst ` set (categories e') =
          fst ` set (categories e) \<union> {c. \<exists>t. (c, t) \<in> set (x # xs) \<and> map_of t ''trader'' = Some a}"
      using e'(3) a0 True unfolding x by (auto simp: keys_dict_set)
    with e' show ?thesis by (simp add: distinct_dict_set)
  next
    case False
    from m False Cons.prems(2) have "map_of tc1 a = Some e"
      by (auto split: option.splits)
    from Cons.IH[OF r this] obtain e' where e': "map_of tc' a = Some e'"
      "trader_name e' = trader_name e"
      "fst ` set (categories e') =
          fst ` set (categories e) \<union> {c. \<exists>t. (c, t) \<in> set xs \<and> map_of t ''trader'' = Some a}"
      "distinct (map fst (categories e')) = distinct (map fst (categories e))"
      by blast
    have "{c. \<exists>t. (c, t) \<in> set (x # xs) \<and> map_of t ''trader'' = Some a} =
          {c. \<exists>t. (c, t) \<in> set xs \<and> map_of t ''trader'' = Some a}"
      using a0 False unfolding x by auto
    with e' show ?thesis by simp
  qed
qed

text \<open>An entry that is new takes the name of the first record with its address.\<close>

lemma add_records_new:
  "add_records xs tc = Inr tc' \<Longrightarrow> map_of tc a = None \<Longrightarrow> map_of tc' a = Some e' \<Longrightarrow>
   (\<exists>c t. find (\<lambda>(c, t). map_of t ''trader'' = Some a) xs = Some (c, t)
        \<and> map_of t ''trader_name'' = Some (trader_name e'))
   \<and> fst ` set (categories e') = {c. \<exists>t. (c, t) \<in> set xs \<and> map_of t ''trader'' = Some a}
   \<and> distinct (map fst (categories e'))"
proof (induction xs arbitrary: tc)
  case Nil
  then show ?case by simp
next
  case (Cons x xs)
  obtain c t where x: "x = (c, t)" by (cases x)
  from Cons.prems x obtain tc1 where s: "add_trader c t tc = Inr tc1" and r: "add_records xs tc1 = Inr tc'"
    by (auto split: sum.splits)
  from add_trader_Inr[OF s] obtain a0 g r0 p where a0: "map_of t ''trader'' = Some a0"
    and m: "(case map_of tc a0 of
          Some e \<Rightarrow> map_of tc1 = (map_of tc)(a0 \<mapsto>
              e\<lparr>categories := dict_set (categories e) c
                  \<lparr>pnl = g, win_rate = r0, positions = p, rank = get_or_none t ''rank''\<rparr>\<rparr>)
        | None \<Rightarrow> \<exists>n. map_of t ''trader_name'' = Some n \<and>
            map_of tc1 = (map_of tc)(a0 \<mapsto>
              \<lparr>trader_name = n, categories = [(c, \<lparr>pnl = g, win_rate = r0, positions = p,
                   rank = get_or_none t ''rank''\<rparr>)]\<rparr>))"
    by blast
  show ?case
  proof (cases "a0 = a")
    case True
    from m True Cons.prems(2) obtain n where n: "map_of t ''trader_name'' = Some n"
      and m1: "map_of tc1 a = Some \<lparr>trader_name = n, categories = [(c, \<lparr>pnl = g, win_rate = r0,
                 positions = p, rank = get_or_none t ''rank''\<rparr>)]\<rparr>"
      by auto
    from add_records_old[OF r m1] Cons.prems(3) have
      "trader_name e' = n"
      "fst ` set (categories e') = {c} \<union> {c. \<exists>t. (c, t) \<in> set xs \<and> map_of t ''trader'' = Some a}"
      "distinct (map fst (categories e'))"
      by auto
    moreover have "{c} \<union> {c. \<exists>t. (c, t) \<in> set xs \<and> map_of t ''trader'' = Some a} =
          {c. \<exists>t. (c, t) \<in> set (x # xs) \<and> map_of t ''trader'' = Some a}"
      using a0 True unfolding x by auto
    ultimately show ?thesis using a0 True n unfolding x by simp
  next
    case False
    from m False Cons.prems(2) have "map_of tc1 a = None"
      by (auto split: option.splits)
    from Cons.IH[OF r this Cons.prems(3)] have ih:
      "\<exists>c t. find (\<lambda>(c, t). map_of t ''trader'' = Some a) xs = Some (c, t)
        \<and> map_of t ''trader_name'' = Some (trader_name e')"
      "fst ` set (categories e') = {c. \<exists>t. (c, t) \<in> set xs \<and> map_of t ''trader'' = Some a}"
      "distinct (map fst (categories e'))"
      by blast+
    have "{c. \<exists>t. (c, t) \<in> set (x # xs) \<and> map_of t ''trader'' = Some a} =
          {c. \<exists>t. (c, t) \<in> set xs \<and> map_of t ''trader'' = Some a}"
      using a0 False unfolding x by auto
    with ih a0 False show ?thesis unfolding x by simp
  qed
qed

lemma set_records: "set (records cz) = {(c, t). \<exists>ts. (c, ts) \<in> set cz \<and> t \<in> set ts}"
  by (induction cz) (auto simp: records_def)

lemma find_append_first:
  "find P (xs @ ys) = (case find P xs of None \<Rightarrow> find P ys | Some x \<Rightarrow> Some x)"
  by (induction xs) auto

lemma find_Pair: "find (\<lambda>(c, t). P t) (map (Pair c) ts) = map_option (Pair c) (find P ts)"
  by (induction ts) auto

lemma find_None_no_address:
  "find (\<lambda>t. map_of t ''trader'' = Some a) ts = None \<longleftrightarrow> \<not> has_address a ts"
  by (auto simp: find_None_iff has_address_def)

lemma find_records:
  "find (\<lambda>(c, t). map_of t ''trader'' = Some a) (records cz) = Some (c, t) \<Longrightarrow>
   \<exists>ts. find (\<lambda>(c, ts). has_address a ts) cz = Some (c, ts)
      \<and> find (\<lambda>t. map_of t ''trader'' = Some a) ts = Some t"
proof (induction cz)
  case Nil
  then show ?case by (simp add: records_def)
next
  case (Cons x cz)
  obtain c0 ts0 where x: "x = (c0, ts0)" by (cases x)
  have rec: "records (x # cz) = map (Pair c0) ts0 @ records cz"
    unfolding x by (simp add: records_def)
  show ?case
  proof (cases "has_address a ts0")
    case True
    then obtain t0 where t0: "find (\<lambda>t. map_of t ''trader'' = Some a) ts0 = Some t0"
      using find_None_no_address[of a ts0] by (cases "find (\<lambda>t. map_of t ''trader'' = Some a) ts0") auto
    with Cons.prems have "c = c0" "t = t0"
      unfolding rec by (simp_all add: find_append_first find_Pair)
    with True t0 show ?thesis unfolding x by simp
  next
    case False
    then have "find (\<lambda>t. map_of t ''trader'' = Some a) ts0 = None"
      using find_None_no_address[of a ts0] by simp
    with Cons.prems have "find (\<lambda>(c, t). map_of t ''trader'' = Some a) (records cz) = Some (c, t)"
      unfolding rec by (simp add: find_append_first find_Pair)
    from Cons.IH[OF this] False show ?thesis unfolding x by simp
  qed
qed

text \<open>
  C4. For every snapshot from which the lookup is derived, the lookup has exactly one entry
  per trader address that occurs in some category's list (its keys are distinct and are
  exactly these addresses), and the \<open>categories\<close> of an entry have exactly one key per
  category whose list holds a record with that address. Nothing is assumed about an
  address occurring once per category.
\<close>

theorem lookup_one_entry_per_address:
  assumes "trader_categories categorized = Inr tc"
  shows "distinct (map fst tc)
     \<and> fst ` set tc =
         {a. \<exists>c ts t. (c, ts) \<in> set categorized \<and> t \<in> set ts \<and> map_of t ''trader'' = Some a}
     \<and> (\<forall>(a, e) \<in> set tc. distinct (map fst (categories e))
          \<and> fst ` set (categories e) =
              {c. \<exists>ts t. (c, ts) \<in> set categorized \<and> t \<in> set ts \<and> map_of t ''trader'' = Some a})"
proof -
  from assms have run: "add_records (records categorized) [] = Inr tc"
    by (simp add: trader_categories_def add_categories_records)
  have d: "distinct (map fst tc)"
    using add_records_distinct[OF run] by simp
  have k: "fst ` set tc =
         {a. \<exists>c ts t. (c, ts) \<in> set categorized \<and> t \<in> set ts \<and> map_of t ''trader'' = Some a}"
    using add_records_keys[OF run] by (auto simp: set_records)
  have c: "distinct (map fst (categories e))
          \<and> fst ` set (categories e) =
              {c. \<exists>ts t. (c, ts) \<in> set categorized \<and> t \<in> set ts \<and> map_of t ''trader'' = Some a}"
    if "(a, e) \<in> set tc" for a e
  proof -
    from that d have "map_of tc a = Some e" by simp
    from add_records_new[OF run _ this] show ?thesis by (auto simp: set_records)
  qed
  from d k c show ?thesis by blast
qed

text \<open>
  C10. The \<open>trader_name\<close> stored for an address is the one of its first record in the
  first category, in the snapshot's order, whose list holds the address. Once an address
  has its entry, no record processed later changes the stored name. A later record of
  another address leaves the entry as it is; a later record of the same address in
  category \<open>c\<close> stores its own figures under \<open>c\<close> in the entry's \<open>categories\<close> and
  leaves what is stored under every other category untouched, so no key is lost.
\<close>

theorem lookup_name_from_first_category:
  assumes "trader_categories categorized = Inr tc" and "(a, e) \<in> set tc"
  shows "(\<exists>c ts t. find (\<lambda>(c, ts). has_address a ts) categorized = Some (c, ts)
            \<and> find (\<lambda>t. map_of t ''trader'' = Some a) ts = Some t
            \<and> map_of t ''trader_name'' = Some (trader_name e))
     \<and> (\<forall>c t tc0 tc1 e0. add_trader c t tc0 = Inr tc1 \<and> map_of tc0 a = Some e0 \<longrightarrow>
          (\<exists>e1. map_of tc1 a = Some e1 \<and> trader_name e1 = trader_name e0
             \<and> fst ` set (categories e0) \<subseteq> fst ` set (categories e1)
             \<and> (\<forall>c'. c' \<noteq> c \<longrightarrow> map_of (categories e1) c' = map_of (categories e0) c')
             \<and> (map_of t ''trader'' \<noteq> Some a \<longrightarrow> e1 = e0)
             \<and> (map_of t ''trader'' = Some a \<longrightarrow>
                  (\<exists>g r p. map_of t ''overall_gain'' = Some g \<and> map_of t ''win_rate'' = Some r
                     \<and> map_of t ''total_positions'' = Some p
                     \<and> categories e1 = dict_set (categories e0) c
                          \<lparr>pnl = g, win_rate = r, positions = p, rank = get_or_none t ''rank''\<rparr>))))"
proof -
  from assms have run: "add_records (records categorized) [] = Inr tc"
    by (simp add: trader_categories_def add_categories_records)
  have "distinct (map fst tc)"
    using add_records_distinct[OF run] by simp
  with assms(2) have "map_of tc a = Some e" by simp
  from add_records_new[OF run _ this] obtain c t where
    "find (\<lambda>(c, t). map_of t ''trader'' = Some a) (records categorized) = Some (c, t)"
    "map_of t ''trader_name'' = Some (trader_name e)"
    by auto
  with find_records[of a categorized c t] have first:
    "\<exists>c ts t. find (\<lambda>(c, ts). has_address a ts) categorized = Some (c, ts)
            \<and> find (\<lambda>t. map_of t ''trader'' = Some a) ts = Some t
            \<and> map_of t ''trader_name'' = Some (trader_name e)"
    by blast
  have step: "\<forall>c t tc0 tc1 e0. add_trader c t tc0 = Inr tc1 \<and> map_of tc0 a = Some e0 \<longrightarrow>
          (\<exists>e1. map_of tc1 a = Some e1 \<and> trader_name e1 = trader_name e0
             \<and> fst ` set (categories e0) \<subseteq> fst ` set (categories e1)
             \<and> (\<forall>c'. c' \<noteq> c \<longrightarrow> map_of (categories e1) c' = map_of (categories e0) c')
             \<and> (map_of t ''trader'' \<noteq> Some a \<longrightarrow> e1 = e0)
             \<and> (map_of t ''trader'' = Some a \<longrightarrow>
                  (\<exists>g r p. map_of t ''overall_gain'' = Some g \<and> map_of t ''win_rate'' = Some r
                     \<and> map_of t ''total_positions'' = Some p
                     \<and> categories e1 = dict_set (categories e0) c
                          \<lparr>pnl = g, win_rate = r, positions = p, rank = get_or_none t ''rank''\<rparr>)))"
  proof (intro allI impI, elim conjE)
    fix c t tc0 tc1 e0
    assume s: "add_trader c t tc0 = Inr tc1" and old: "map_of tc0 a = Some e0"
    from add_trader_Inr[OF s] obtain a0 g r p where
      f: "map_of t ''trader'' = Some a0" "map_of t ''overall_gain'' = Some g"
         "map_of t ''win_rate'' = Some r" "map_of t ''total_positions'' = Some p"
      and m: "(case map_of tc0 a0 of
          Some e \<Rightarrow> map_of tc1 = (map_of tc0)(a0 \<mapsto>
              e\<lparr>categories := dict_set (categories e) c
                  \<lparr>pnl = g, win_rate = r, positions = p, rank = get_or_none t ''rank''\<rparr>\<rparr>)
        | None \<Rightarrow> \<exists>n. map_of t ''trader_name'' = Some n \<and>
            map_of tc1 = (map_of tc0)(a0 \<mapsto>
              \<lparr>trader_name = n, categories = [(c, \<lparr>pnl = g, win_rate = r, positions = p,
                   rank = get_or_none t ''rank''\<rparr>)]\<rparr>))"
      by blast
    show "\<exists>e1. map_of tc1 a = Some e1 \<and> trader_name e1 = trader_name e0
             \<and> fst ` set (categories e0) \<subseteq> fst ` set (categories e1)
             \<and> (\<forall>c'. c' \<noteq> c \<longrightarrow> map_of (categories e1) c' = map_of (categories e0) c')
             \<and> (map_of t ''trader'' \<noteq> Some a \<longrightarrow> e1 = e0)
             \<and> (map_of t ''trader'' = Some a \<longrightarrow>
                  (\<exists>g r p. map_of t ''overall_gain'' = Some g \<and> map_of t ''win_rate'' = Some r
                     \<and> map_of t ''total_positions'' = Some p
                     \<and> categories e1 = dict_set (categories e0) c
                          \<lparr>pnl = g, win_rate = r, positions = p, rank = get_or_none t ''rank''\<rparr>))"
    proof (cases "a0 = a")
      case True
      let ?st = "\<lparr>pnl = g, win_rate = r, positions = p, rank = get_or_none t ''rank''\<rparr>"
      let ?e1 = "e0\<lparr>categories := dict_set (categories e0) c ?st\<rparr>"
      from m True old have m1: "map_of tc1 a = Some ?e1" by simp
      have keep: "\<forall>c'. c' \<noteq> c \<longrightarrow> map_of (categories ?e1) c' = map_of (categories e0) c'"
        by (simp add: map_of_dict_set)
      have keys: "fst ` set (categories e0) \<subseteq> fst ` set (categories ?e1)"
        by (auto simp: keys_dict_set)
      have cats: "categories ?e1 = dict_set (categories e0) c ?st" by simp
      have nm: "trader_name ?e1 = trader_name e0" by simp
      show ?thesis
      proof (rule exI[of _ ?e1], intro conjI impI)
        show "map_of tc1 a = Some ?e1" by (rule m1)
        show "trader_name ?e1 = trader_name e0" by (rule nm)
        show "fst ` set (categories e0) \<subseteq> fst ` set (categories ?e1)" by (rule keys)
        show "\<forall>c'. c' \<noteq> c \<longrightarrow> map_of (categories ?e1) c' = map_of (categories e0) c'" by (rule keep)
      next
        assume "map_of t ''trader'' \<noteq> Some a"
        with f(1) True show "?e1 = e0" by simp
      next
        from f cats show "\<exists>g r p. map_of t ''overall_gain'' = Some g \<and> map_of t ''win_rate'' = Some r
                     \<and> map_of t ''total_positions'' = Some p
                     \<and> categories ?e1 = dict_set (categories e0) c
                          \<lparr>pnl = g, win_rate = r, positions = p, rank = get_or_none t ''rank''\<rparr>"
          by blast
      qed
    next
      case False
      from m False old have m1: "map_of tc1 a = Some e0" by (auto split: option.splits)
      from f(1) False have ne: "map_of t ''trader'' \<noteq> Some a" by simp
      show ?thesis
      proof (rule exI[of _ e0], intro conjI impI)
        show "map_of tc1 a = Some e0" by (rule m1)
      next
        assume "map_of t ''trader'' = Some a"
        with ne show "\<exists>g r p. map_of t ''overall_gain'' = Some g \<and> map_of t ''win_rate'' = Some r
                     \<and> map_of t ''total_positions'' = Some p
                     \<and> categories e0 = dict_set (categories e0) c
                          \<lparr>pnl = g, win_rate = r, positions = p, rank = get_or_none t ''rank''\<rparr>"
          by simp
      qed simp_all
    qed
  qed
  show ?thesis by (rule conjI[OF first step])
qed

lemma add_trader_total:
  assumes "has_expected_keys t"
  shows "\<exists>tc'. add_trader c t tc = Inr tc'"
proof -
  from assms obtain a n g r p where f: "map_of t ''trader'' = Some a" "map_of t ''trader_name'' = Some n"
    "map_of t ''overall_gain'' = Some g" "map_of t ''win_rate'' = Some r"
    "map_of t ''total_positions'' = Some p"
    by (auto simp: has_expected_keys_def expected_keys_def)
  show ?thesis
  proof (cases "map_of tc a")
    case None
    then have "a \<notin> fst ` set tc" by (simp add: map_of_eq_None_iff)
    with f show ?thesis by (simp add: add_trader_def getitem_def map_of_dict_set)
  next
    case (Some e)
    then have "a \<in> fst ` set tc" by (metis map_of_eq_None_iff option.distinct(1))
    with f Some show ?thesis by (simp add: add_trader_def getitem_def)
  qed
qed

lemma add_records_total:
  "\<forall>(c, t) \<in> set xs. has_expected_keys t \<Longrightarrow> \<exists>tc'. add_records xs tc = Inr tc'"
proof (induction xs arbitrary: tc)
  case Nil
  show ?case by simp
next
  case (Cons x xs)
  obtain c t where x: "x = (c, t)" by (cases x)
  from Cons.prems x have "has_expected_keys t" by simp
  from add_trader_total[OF this] obtain tc1 where "add_trader c t tc = Inr tc1" by blast
  moreover from Cons.IH[of tc1] Cons.prems obtain tc' where "add_records xs tc1 = Inr tc'" by auto
  ultimately show ?case unfolding x by simp
qed

lemma trader_categories_total:
  assumes "\<forall>(c, ts) \<in> set categorized. \<forall>t \<in> set ts. has_expected_keys t"
  shows "\<exists>tc. trader_categories categorized = Inr tc"
proof -
  from assms have "\<forall>(c, t) \<in> set (records categorized). has_expected_keys t"
    by (auto simp: set_records)
  from add_records_total[OF this] show ?thesis
    by (simp add: trader_categories_def add_categories_records)
qed

lemma two_categories_run: "trader_categories two_categories = Inr two_categories_lookup"
  by (simp add: trader_categories_def two_categories_def two_categories_lookup_def add_trader_def
      getitem_def get_or_none_def alice_def bob_def alice_politics_def mk_trader_def)

theorem lookup_one_entry_per_address_witness:
  "trader_categories two_categories = Inr two_categories_lookup
   \<and> distinct (map fst two_categories_lookup)
   \<and> fst ` set two_categories_lookup = {JStr ''0xa11ce'', JStr ''0xb0b''}
   \<and> map (\<lambda>(a, e). map fst (categories e)) two_categories_lookup = [[''Sports'', ''Politics''], [''Sports'']]"
  using lookup_one_entry_per_address [OF two_categories_run] two_categories_run
  by (simp add: two_categories_lookup_def)

lemma sports_lookup_run: "add_traders ''Sports'' [alice, bob] [] = Inr sports_lookup"
  by (simp add: sports_lookup_def add_trader_def getitem_def get_or_none_def alice_def bob_def
      mk_trader_def)

lemma politics_step: "add_trader ''Politics'' alice_politics sports_lookup = Inr two_categories_lookup"
  by (simp add: sports_lookup_def two_categories_lookup_def add_trader_def getitem_def
      get_or_none_def alice_politics_def mk_trader_def)

theorem lookup_name_from_first_category_witness:
  "trader_categories two_categories = Inr two_categories_lookup
   \<and> map (\<lambda>(a, e). (a, trader_name e)) two_categories_lookup =
       [(JStr ''0xa11ce'', JStr ''alice''), (JStr ''0xb0b'', JStr ''bob'')]
   \<and> find (\<lambda>(c, ts). has_address (JStr ''0xa11ce'') ts) two_categories = Some (''Sports'', [alice, bob])
   \<and> find (\<lambda>t. map_of t ''trader'' = Some (JStr ''0xa11ce'')) [alice, bob] = Some alice
   \<and> map_of alice ''trader_name'' = Some (JStr ''alice'')
   \<and> map_of alice_politics ''trader_name'' = Some (JStr ''Alice P.'')
   \<and> add_traders ''Sports'' [alice, bob] [] = Inr sports_lookup
   \<and> add_trader ''Politics'' alice_politics sports_lookup = Inr two_categories_lookup
   \<and> map (\<lambda>(a, e). (a, trader_name e)) sports_lookup =
       [(JStr ''0xa11ce'', JStr ''alice''), (JStr ''0xb0b'', JStr ''bob'')]
   \<and> map_of (categories (snd (hd two_categories_lookup))) ''Sports'' =
       map_of (categories (snd (hd sports_lookup))) ''Sports''
   \<and> map fst (categories (snd (hd two_categories_lookup))) = [''Sports'', ''Politics'']"
proof -
  have mem: "(JStr ''0xa11ce'', snd (hd two_categories_lookup)) \<in> set two_categories_lookup"
    by (simp add: two_categories_lookup_def)
  have old: "map_of sports_lookup (JStr ''0xa11ce'') = Some (snd (hd sports_lookup))"
    by (simp add: sports_lookup_def)
  note T = lookup_name_from_first_category [OF two_categories_run mem]
  from T have first: "\<exists>c ts t. find (\<lambda>(c, ts). has_address (JStr ''0xa11ce'') ts) two_categories = Some (c, ts)
            \<and> find (\<lambda>t. map_of t ''trader'' = Some (JStr ''0xa11ce'')) ts = Some t
            \<and> map_of t ''trader_name'' = Some (trader_name (snd (hd two_categories_lookup)))"
    by (rule conjunct1)
  from T[THEN conjunct2, rule_format, of "''Politics''" alice_politics sports_lookup
      two_categories_lookup "snd (hd sports_lookup)"] politics_step old
  obtain e1 where e1: "map_of two_categories_lookup (JStr ''0xa11ce'') = Some e1"
    "trader_name e1 = trader_name (snd (hd sports_lookup))"
    "\<forall>c'. c' \<noteq> ''Politics'' \<longrightarrow> map_of (categories e1) c' = map_of (categories (snd (hd sports_lookup))) c'"
    by blast
  have e1': "e1 = snd (hd two_categories_lookup)"
    using e1(1) by (simp add: two_categories_lookup_def)
  have sports: "map_of (categories (snd (hd two_categories_lookup))) ''Sports'' =
       map_of (categories (snd (hd sports_lookup))) ''Sports''"
    using e1(3) unfolding e1' by simp
  have a: "trader_categories two_categories = Inr two_categories_lookup" by (rule two_categories_run)
  have b: "map (\<lambda>(a, e). (a, trader_name e)) two_categories_lookup =
       [(JStr ''0xa11ce'', JStr ''alice''), (JStr ''0xb0b'', JStr ''bob'')]"
    by (simp add: two_categories_lookup_def)
  have c: "find (\<lambda>(c, ts). has_address (JStr ''0xa11ce'') ts) two_categories = Some (''Sports'', [alice, bob])"
    by (simp add: two_categories_def has_address_def alice_def mk_trader_def)
  have d: "find (\<lambda>t. map_of t ''trader'' = Some (JStr ''0xa11ce'')) [alice, bob] = Some alice"
    by (simp add: alice_def mk_trader_def)
  have e: "map_of alice ''trader_name'' = Some (JStr ''alice'')"
    "map_of alice_politics ''trader_name'' = Some (JStr ''Alice P.'')"
    by (simp_all add: alice_def alice_politics_def mk_trader_def)
  have f: "map (\<lambda>(a, e). (a, trader_name e)) sports_lookup =
       [(JStr ''0xa11ce'', JStr ''alice''), (JStr ''0xb0b'', JStr ''bob'')]"
    by (simp add: sports_lookup_def)
  have g: "map fst (categories (snd (hd two_categories_lookup))) = [''Sports'', ''Politics'']"
    by (simp add: two_categories_lookup_def)
  from a b c d e sports_lookup_run politics_step f sports g show ?thesis by blast
qed

section \<open>The summary\<close>

text \<open>Where the number formats overflow, and where they do not yet.\<close>

lemma format_overflow_threshold:
  "format_float (JNum (2 ^ 1024 - 2 ^ 970)) = Inl OverflowError"
  "format_float (JNum (2 ^ 1024 - 2 ^ 970 - 1)) = Inr (2 ^ 1024 - 2 ^ 970 - 1)"
  "format_float (JNum (- (2 ^ 1024))) = Inl OverflowError"
  "format_percent (JNum (2 ^ 1018)) = Inl OverflowError"
  "format_percent (JNum (2 ^ 1017)) = Inr (2 ^ 1017)"
  "format_percent (JNum (3 / 4)) = Inr (3 / 4)"
  by (simp_all add: format_float_def format_percent_def int_too_large_def del: of_int_floor_cancel)

lemma top_line_shows_top: "top_line t = Inr m \<Longrightarrow> shows_top (t # ts) m"
  by (auto simp: top_line_def getitem_def format_float_def format_percent_def shows_top_def
      split: option.splits sum.splits jval.splits if_splits)

lemma print_summary_lines:
  "print_summary items w = (None, w') \<Longrightarrow>
   \<exists>tops. stdout w' = stdout w @
            concat (map (\<lambda>((c, ts), m). [SummaryCategory c (length ts), m])
                     (zip (filter (\<lambda>(c, ts). ts \<noteq> []) items) tops))
        \<and> list_all2 (\<lambda>(c, ts) m. shows_top ts m) (filter (\<lambda>(c, ts). ts \<noteq> []) items) tops"
proof (induction items arbitrary: w)
  case Nil
  then show ?case by simp
next
  case (Cons x items)
  obtain c ts where x: "x = (c, ts)" by (cases x)
  show ?case
  proof (cases ts)
    case Nil
    with Cons.prems x have "print_summary items w = (None, w')" by simp
    from Cons.IH[OF this] show ?thesis unfolding x Nil by simp
  next
    case ts: (Cons t ts')
    from Cons.prems x ts obtain m where m: "top_line t = Inr m"
      and rest: "print_summary items (print m (print (SummaryCategory c (length ts)) w)) = (None, w')"
      by (auto split: sum.splits)
    from Cons.IH[OF rest] obtain tops where
      out: "stdout w' = stdout (print m (print (SummaryCategory c (length ts)) w)) @
            concat (map (\<lambda>((c, ts), m). [SummaryCategory c (length ts), m])
                     (zip (filter (\<lambda>(c, ts). ts \<noteq> []) items) tops))"
      and tops: "list_all2 (\<lambda>(c, ts) m. shows_top ts m) (filter (\<lambda>(c, ts). ts \<noteq> []) items) tops"
      by blast
    from top_line_shows_top[OF m] have st: "shows_top ts m" unfolding ts .
    show ?thesis
      apply (rule exI[of _ "m # tops"])
      using out tops st unfolding x by (simp add: ts print_def)
  qed
qed

lemma print_summary_files: "files (snd (print_summary items w)) = files w"
  by (induction items w rule: print_summary.induct)
     (auto simp: print_def split: list.splits sum.splits)

lemma print_summary_status: "fst (print_summary items w) = fst (print_summary items world0)"
proof (induction items arbitrary: w)
  case Nil
  show ?case by simp
next
  case (Cons x items)
  obtain c ts where x: "x = (c, ts)" by (cases x)
  show ?case
  proof (cases ts)
    case Nil
    with Cons.IH[of w] show ?thesis unfolding x by simp
  next
    case (Cons t ts')
    show ?thesis
    proof (cases "top_line t")
      case (Inl e)
      with Cons show ?thesis unfolding x by simp
    next
      case (Inr m)
      with Cons Cons.IH[of "print m (print (SummaryCategory c (length ts)) w)"]
        Cons.IH[of "print m (print (SummaryCategory c (length ts)) world0)"]
      show ?thesis unfolding x by simp
    qed
  qed
qed

text \<open>
  C6, as amended. When the summary loop completes, it prints, for every category of the
  snapshot whose trader list is not empty and for no other, the category with its trader
  count and then a line showing the name, the PnL and the win rate of its first trader;
  the categories come in descending order of trader count, those of equal count in the
  snapshot's order.
\<close>

theorem summary_lists_nonempty_categories:
  assumes "print_summary (sorted_items categorized) w = (None, w')"
  shows "(\<exists>tops. stdout w' = stdout w @
            concat (map (\<lambda>((c, ts), m). [SummaryCategory c (length ts), m])
                     (zip (filter (\<lambda>(c, ts). ts \<noteq> []) (sorted_items categorized)) tops))
          \<and> list_all2 (\<lambda>(c, ts) m. shows_top ts m)
               (filter (\<lambda>(c, ts). ts \<noteq> []) (sorted_items categorized)) tops)
     \<and> sorted_wrt (\<lambda>x y. length (snd y) \<le> length (snd x)) (sorted_items categorized)
     \<and> mset (sorted_items categorized) = mset categorized
     \<and> (\<forall>k. filter (\<lambda>x. length (snd x) = k) (sorted_items categorized) =
              filter (\<lambda>x. length (snd x) = k) categorized)"
proof -
  have "sorted (map (\<lambda>x. - int (length (snd x))) (sorted_items categorized))"
    unfolding sorted_items_def by (rule sorted_sort_key)
  then have "sorted_wrt (\<lambda>x y. length (snd y) \<le> length (snd x)) (sorted_items categorized)"
    by (simp add: sorted_map)
  moreover have "mset (sorted_items categorized) = mset categorized"
    by (simp add: sorted_items_def)
  moreover have "filter (\<lambda>x. length (snd x) = k) (sorted_items categorized) =
              filter (\<lambda>x. length (snd x) = k) categorized" for k
    using sort_key_stable[of "\<lambda>x. - int (length (snd x))" "- int k" categorized]
    by (simp add: sorted_items_def)
  ultimately show ?thesis using print_summary_lines[OF assms] by blast
qed

lemma three_categories_summary:
  "print_summary (sorted_items three_categories) world0 =
     (None, world0\<lparr>stdout := [SummaryCategory ''Crypto'' 2, SummaryTop (JStr ''bob'') 800 (7/10),
                               SummaryCategory ''Sports'' 1, SummaryTop (JStr ''alice'') 900 (3/4)]\<rparr>)"
  by (simp add: three_categories_def sorted_items_def top_line_def getitem_def format_float_def format_percent_def int_too_large_def
      alice_def bob_def carol_def mk_trader_def print_def world0_def)

theorem summary_lists_nonempty_categories_witness:
  "print_summary (sorted_items three_categories) world0 =
     (None, world0\<lparr>stdout := [SummaryCategory ''Crypto'' 2, SummaryTop (JStr ''bob'') 800 (7/10),
                               SummaryCategory ''Sports'' 1, SummaryTop (JStr ''alice'') 900 (3/4)]\<rparr>)
   \<and> sorted_items three_categories = [(''Crypto'', [bob, carol]), (''Sports'', [alice]), (''Politics'', [])]
   \<and> sorted_wrt (\<lambda>x y. length (snd y) \<le> length (snd x)) (sorted_items three_categories)
   \<and> mset (sorted_items three_categories) = mset three_categories"
  using summary_lists_nonempty_categories [OF three_categories_summary] three_categories_summary
  by (simp add: three_categories_def sorted_items_def)

section \<open>The run of the category script\<close>

lemma paths_differ: "snapshot_path dir \<noteq> lookup_path dir"
  by (simp add: snapshot_path_def lookup_path_def script_path_def)

text \<open>The run of the category script, by the phase in which it ends, and the files it leaves.\<close>

lemma categorize_main_status:
  "fst (categorize_main net dir w) =
     (case fst (print_summary (sorted_items (snapshot_of net)) world0) of
        Some e \<Rightarrow> Some e
      | None \<Rightarrow> (case trader_categories (snapshot_of net) of Inl e \<Rightarrow> Some e | Inr tc \<Rightarrow> None))"
proof -
  let ?w0 = "print (rule60 CHR ''='')
               (print (Text ''Categorizing traders by market category (Top 100 per category)'') w)"
  obtain cz w1 where f: "fetch_categories net CATEGORIES [] ?w0 = (cz, w1)"
    by (cases "fetch_categories net CATEGORIES [] ?w0")
  with fetch_CATEGORIES_fst[of net ?w0] have cz: "cz = snapshot_of net" by simp
  let ?w2 = "print (rule60 CHR ''='') (print (Text ''SUMMARY'') (print (rule60 CHR ''='')
               (write_json (script_path dir ''traders-by-category.json'') (py_of_snapshot cz) 2 w1)))"
  obtain st w3 where p: "print_summary (sorted_items cz) ?w2 = (st, w3)"
    by (cases "print_summary (sorted_items cz) ?w2")
  with print_summary_status[of "sorted_items cz" ?w2]
  have st: "st = fst (print_summary (sorted_items cz) world0)" by simp
  show ?thesis
    unfolding categorize_main_def f using p st cz
    by (simp split: option.splits sum.splits)
qed

lemma categorize_main_files:
  "files (snd (categorize_main net dir w)) =
     (case fst (categorize_main net dir w) of
        Some e \<Rightarrow> (files w)(snapshot_path dir \<mapsto> JsonDump (py_of_snapshot (snapshot_of net)) 2)
      | None \<Rightarrow> (case trader_categories (snapshot_of net) of
           Inl e \<Rightarrow> (files w)(snapshot_path dir \<mapsto> JsonDump (py_of_snapshot (snapshot_of net)) 2)
         | Inr tc \<Rightarrow> (files w)(snapshot_path dir \<mapsto> JsonDump (py_of_snapshot (snapshot_of net)) 2,
                         lookup_path dir \<mapsto> JsonDump (py_of_lookup tc) 2)))"
proof -
  let ?w0 = "print (rule60 CHR ''='')
               (print (Text ''Categorizing traders by market category (Top 100 per category)'') w)"
  obtain cz w1 where f: "fetch_categories net CATEGORIES [] ?w0 = (cz, w1)"
    by (cases "fetch_categories net CATEGORIES [] ?w0")
  with fetch_CATEGORIES_fst[of net ?w0] have cz: "cz = snapshot_of net" by simp
  from f fetch_categories_files[of net CATEGORIES "[]" ?w0] have w1: "files w1 = files w"
    by (simp add: print_def)
  let ?w2 = "print (rule60 CHR ''='') (print (Text ''SUMMARY'') (print (rule60 CHR ''='')
               (write_json (script_path dir ''traders-by-category.json'') (py_of_snapshot cz) 2 w1)))"
  obtain st w3 where p: "print_summary (sorted_items cz) ?w2 = (st, w3)"
    by (cases "print_summary (sorted_items cz) ?w2")
  with print_summary_files[of "sorted_items cz" ?w2] w1
  have w3: "files w3 = (files w)(snapshot_path dir \<mapsto> JsonDump (py_of_snapshot cz) 2)"
    by (simp add: print_def write_json_def snapshot_path_def)
  show ?thesis
    unfolding categorize_main_def f using p w3 cz
    by (simp add: print_def write_json_def snapshot_path_def lookup_path_def
        split: option.splits sum.splits)
qed

text \<open>
  C5. Two runs of the category script whose responses carry the same records in the same
  order for every category end alike and leave the same content in
  \<open>traders-by-category.json\<close>, which is always written; when they complete they leave the
  same content in \<open>traders-category-lookup.json\<close> too. The directories, the worlds the
  runs start from and the texts of the exceptions may differ.
\<close>

theorem category_outputs_deterministic:
  assumes "\<forall>c \<in> set CATEGORIES.
             payload (net1 (category_request c 100)) = payload (net2 (category_request c 100))"
  shows "fst (categorize_main net1 dir1 w1) = fst (categorize_main net2 dir2 w2)
     \<and> files (snd (categorize_main net1 dir1 w1)) (snapshot_path dir1) =
         files (snd (categorize_main net2 dir2 w2)) (snapshot_path dir2)
     \<and> files (snd (categorize_main net1 dir1 w1)) (snapshot_path dir1) \<noteq> None
     \<and> (fst (categorize_main net1 dir1 w1) = None \<longrightarrow>
          files (snd (categorize_main net1 dir1 w1)) (lookup_path dir1) =
          files (snd (categorize_main net2 dir2 w2)) (lookup_path dir2)
        \<and> files (snd (categorize_main net1 dir1 w1)) (lookup_path dir1) \<noteq> None)"
proof -
  from assms have s: "snapshot_of net1 = snapshot_of net2"
    by (simp add: snapshot_of_def)
  have st: "fst (categorize_main net1 dir1 w1) = fst (categorize_main net2 dir2 w2)"
    unfolding categorize_main_status s ..
  have p: "snapshot_path d \<noteq> lookup_path d" for d by (rule paths_differ)
  have snap: "files (snd (categorize_main n d w)) (snapshot_path d) =
      Some (JsonDump (py_of_snapshot (snapshot_of n)) 2)" for n d w
    using p[of d] by (simp add: categorize_main_files split: option.splits sum.splits)
  have look: "files (snd (categorize_main n d w)) (lookup_path d) =
      (case trader_categories (snapshot_of n) of Inr tc \<Rightarrow> Some (JsonDump (py_of_lookup tc) 2))"
    if "fst (categorize_main n d w) = None" for n d w
    using that p[of d]
    by (auto simp: categorize_main_files categorize_main_status split: option.splits sum.splits)
  have ok: "\<exists>tc. trader_categories (snapshot_of n) = Inr tc"
    if "fst (categorize_main n d w) = None" for n d w
    using that by (auto simp: categorize_main_status split: option.splits sum.splits)
  show ?thesis
  proof (intro conjI impI)
    show "fst (categorize_main net1 dir1 w1) = fst (categorize_main net2 dir2 w2)" by (rule st)
    show "files (snd (categorize_main net1 dir1 w1)) (snapshot_path dir1) =
         files (snd (categorize_main net2 dir2 w2)) (snapshot_path dir2)"
      by (simp add: snap s)
    show "files (snd (categorize_main net1 dir1 w1)) (snapshot_path dir1) \<noteq> None"
      by (simp add: snap)
  next
    assume n: "fst (categorize_main net1 dir1 w1) = None"
    with st have n2: "fst (categorize_main net2 dir2 w2) = None" by simp
    show "files (snd (categorize_main net1 dir1 w1)) (lookup_path dir1) =
          files (snd (categorize_main net2 dir2 w2)) (lookup_path dir2)"
      by (simp add: look[OF n] look[OF n2] s)
    from ok[OF n] show "files (snd (categorize_main net1 dir1 w1)) (lookup_path dir1) \<noteq> None"
      by (auto simp: look[OF n])
  qed
qed

lemma politics_down_status: "fst (categorize_main politics_down dir w) = None"
  by (simp add: categorize_main_status snapshot_of_def CATEGORIES_def politics_down_def
      category_request_def payload_def get_data_def sorted_items_def top_line_def getitem_def
      format_float_def format_percent_def int_too_large_def alice_def mk_trader_def trader_categories_def add_trader_def
      get_or_none_def world0_def print_def)

theorem category_outputs_deterministic_witness:
  "fst (categorize_main politics_down ''/srv/a'' world0) = None
   \<and> fst (categorize_main politics_timeout ''/srv/b'' world0) = None
   \<and> files (snd (categorize_main politics_down ''/srv/a'' world0)) (snapshot_path ''/srv/a'') =
       files (snd (categorize_main politics_timeout ''/srv/b'' world0)) (snapshot_path ''/srv/b'')
   \<and> files (snd (categorize_main politics_down ''/srv/a'' world0)) (lookup_path ''/srv/a'') =
       files (snd (categorize_main politics_timeout ''/srv/b'' world0)) (lookup_path ''/srv/b'')
   \<and> files (snd (categorize_main politics_down ''/srv/a'' world0)) (lookup_path ''/srv/a'') \<noteq> None"
proof -
  have same: "\<forall>c \<in> set CATEGORIES.
      payload (politics_down (category_request c 100)) = payload (politics_timeout (category_request c 100))"
    by (simp add: CATEGORIES_def politics_down_def politics_timeout_def category_request_def payload_def)
  have none: "fst (categorize_main politics_down ''/srv/a'' world0) = None"
    by (rule politics_down_status)
  from category_outputs_deterministic [OF same, of "''/srv/a''" world0 "''/srv/b''" world0]
  have "fst (categorize_main politics_down ''/srv/a'' world0) =
        fst (categorize_main politics_timeout ''/srv/b'' world0)"
    and "files (snd (categorize_main politics_down ''/srv/a'' world0)) (snapshot_path ''/srv/a'') =
       files (snd (categorize_main politics_timeout ''/srv/b'' world0)) (snapshot_path ''/srv/b'')"
    and "fst (categorize_main politics_down ''/srv/a'' world0) = None \<longrightarrow>
       files (snd (categorize_main politics_down ''/srv/a'' world0)) (lookup_path ''/srv/a'') =
       files (snd (categorize_main politics_timeout ''/srv/b'' world0)) (lookup_path ''/srv/b'')
       \<and> files (snd (categorize_main politics_down ''/srv/a'' world0)) (lookup_path ''/srv/a'') \<noteq> None"
    by blast+
  with none show ?thesis by metis
qed

text \<open>
  A category without traders gets no summary line: when the Politics request fails, the
  snapshot has the category Politics with the empty list, the script completes, and no
  line of its output is a summary line for Politics.
\<close>

theorem summary_skips_empty_category:
  "''Politics'' \<in> fst ` set (fst (fetch_categories politics_down CATEGORIES [] world0))
   \<and> fst (categorize_main politics_down ''/srv/scripts'' world0) = None
   \<and> (\<forall>n. SummaryCategory ''Politics'' n
          \<notin> set (stdout (snd (categorize_main politics_down ''/srv/scripts'' world0))))"
  by (simp add: categorize_main_def CATEGORIES_def fetch_traders_by_category_def post_def
      politics_down_def category_request_def get_data_def print_def write_json_def sorted_items_def
      top_line_def getitem_def format_float_def format_percent_def int_too_large_def alice_def mk_trader_def trader_categories_def
      add_trader_def get_or_none_def world0_def rule60_def)

section \<open>The filtered crawler: the page loop\<close>

lemma crawl_loop_step:
  assumes "continues ps (net (crawl_request a b ps p))"
  shows "\<exists>w'. crawl_loop net a b ps p acc w =
           crawl_loop net a b ps (Suc p) (acc @ payload (net (crawl_request a b ps p))) w'
         \<and> sent w' = sent w @ [crawl_request a b ps p] \<and> files w' = files w
         \<and> sleeps w' = sleeps w @ [1 / 2]"
proof -
  from assms obtain body where r: "net (crawl_request a b ps p) = Returns body"
    and ne: "get_data body \<noteq> []" and full: "\<not> int (length (get_data body)) < ps"
    by (auto simp: continues_def split: response.splits)
  let ?w' = "sleep (1 / 2) (print (PageLine p (length (get_data body)) (length (acc @ get_data body)))
               (w\<lparr>sent := sent w @ [crawl_request a b ps p]\<rparr>))"
  have "crawl_loop net a b ps p acc w = crawl_loop net a b ps (Suc p) (acc @ get_data body) ?w'"
    using r ne full by (subst crawl_loop.simps) (simp add: post_def)
  moreover have "sent ?w' = sent w @ [crawl_request a b ps p]" "files ?w' = files w"
    "sleeps ?w' = sleeps w @ [1 / 2]"
    by (simp_all add: sleep_def print_def)
  ultimately show ?thesis using r by (auto simp: payload_def)
qed

lemma crawl_loop_run:
  assumes "\<And>i. p \<le> i \<Longrightarrow> i < p + n \<Longrightarrow> continues ps (net (crawl_request a b ps i))"
  shows "\<exists>w'. crawl_loop net a b ps p acc w =
           crawl_loop net a b ps (p + n)
             (acc @ concat (map (\<lambda>i. payload (net (crawl_request a b ps i))) [p..<p + n])) w'
         \<and> sent w' = sent w @ map (crawl_request a b ps) [p..<p + n] \<and> files w' = files w
         \<and> sleeps w' = sleeps w @ replicate n (1 / 2)"
  using assms
proof (induction n)
  case 0
  show ?case by (intro exI[of _ w]) simp
next
  case (Suc n)
  from Suc.IH Suc.prems obtain w1 where
    run: "crawl_loop net a b ps p acc w =
           crawl_loop net a b ps (p + n)
             (acc @ concat (map (\<lambda>i. payload (net (crawl_request a b ps i))) [p..<p + n])) w1"
    and w1: "sent w1 = sent w @ map (crawl_request a b ps) [p..<p + n]" "files w1 = files w"
      "sleeps w1 = sleeps w @ replicate n (1 / 2)"
    by auto
  have c: "continues ps (net (crawl_request a b ps (p + n)))" using Suc.prems by simp
  from crawl_loop_step[of ps net a b "p + n"
      "acc @ concat (map (\<lambda>i. payload (net (crawl_request a b ps i))) [p..<p + n])" w1, OF c]
  obtain w2 where
    step: "crawl_loop net a b ps (p + n)
             (acc @ concat (map (\<lambda>i. payload (net (crawl_request a b ps i))) [p..<p + n])) w1 =
           crawl_loop net a b ps (Suc (p + n))
             ((acc @ concat (map (\<lambda>i. payload (net (crawl_request a b ps i))) [p..<p + n])) @
              payload (net (crawl_request a b ps (p + n)))) w2"
    and w2: "sent w2 = sent w1 @ [crawl_request a b ps (p + n)]" "files w2 = files w1"
      "sleeps w2 = sleeps w1 @ [1 / 2]"
    by auto
  show ?case
    apply (rule exI[of _ w2])
    using run step w1 w2 by (simp add: replicate_append_same)
qed

lemma crawl_loop_raises:
  assumes "net (crawl_request a b ps p) = Raises e"
  shows "crawl_loop net a b ps p acc w =
           Some (acc, print (PageError p e) (w\<lparr>sent := sent w @ [crawl_request a b ps p]\<rparr>))"
  using assms by (subst crawl_loop.simps) (simp add: post_def)

lemma crawl_loop_last:
  assumes "net (crawl_request a b ps p) = Returns body" "int (length (get_data body)) < ps"
  shows "\<exists>w'. crawl_loop net a b ps p acc w = Some (acc @ get_data body, w')
          \<and> sent w' = sent w @ [crawl_request a b ps p] \<and> files w' = files w \<and> sleeps w' = sleeps w"
  using assms by (subst crawl_loop.simps) (simp add: post_def print_def)

lemma crawl_traders_unfold:
  "\<exists>w0. crawl_traders net a b ps w = crawl_loop net a b ps 1 [] w0
     \<and> sent w0 = sent w \<and> files w0 = files w \<and> sleeps w0 = sleeps w"
  by (intro exI[of _ "print (rule60 CHR ''-'') (print (CrawlHeader a b) w)"])
     (simp add: crawl_traders_def print_def)

lemma full_page_continues:
  assumes "net (crawl_request a b ps i) = Returns body" "int (length (get_data body)) = ps" "0 < ps"
  shows "continues ps (net (crawl_request a b ps i))"
  using assms by (auto simp: continues_def)

text \<open>
  C2. When every page before page \<open>k\<close> holds exactly \<open>page_size\<close> records and page \<open>k\<close>
  holds fewer (possibly none), \<open>crawl_traders\<close> returns, having requested exactly the
  pages 1 to \<open>k\<close> in order, and its result is the records of these pages in order, so its
  length is the sum of their record counts.
\<close>

theorem crawl_stops_at_short_page:
  assumes k: "1 \<le> k"
    and full: "\<forall>i. 1 \<le> i \<and> i < k \<longrightarrow>
                 (\<exists>body. net (crawl_request a b ps i) = Returns body \<and> int (length (get_data body)) = ps)"
    and short: "net (crawl_request a b ps k) = Returns body_k \<and> int (length (get_data body_k)) < ps"
  shows "\<exists>w'. crawl_traders net a b ps w =
             Some (concat (map (\<lambda>i. payload (net (crawl_request a b ps i))) [1..<Suc k]), w')
          \<and> sent w' = sent w @ map (crawl_request a b ps) [1..<Suc k]
          \<and> length (concat (map (\<lambda>i. payload (net (crawl_request a b ps i))) [1..<Suc k])) =
              (\<Sum>i\<leftarrow>[1..<Suc k]. length (payload (net (crawl_request a b ps i))))"
proof -
  let ?pl = "\<lambda>i. payload (net (crawl_request a b ps i))"
  from short have pos: "0 < ps" by linarith
  obtain n where n: "k = 1 + n" using k by (metis le_Suc_ex)
  have cont: "continues ps (net (crawl_request a b ps i))" if "1 \<le> i" "i < 1 + n" for i
    using full that pos n by (auto intro: full_page_continues)
  obtain w0 where w0: "crawl_traders net a b ps w = crawl_loop net a b ps 1 [] w0"
    "sent w0 = sent w" using crawl_traders_unfold by blast
  from crawl_loop_run[of 1 n ps net a b "[]" w0] cont obtain w1 where
    run: "crawl_loop net a b ps 1 [] w0 = crawl_loop net a b ps k (concat (map ?pl [1..<k])) w1"
    and w1: "sent w1 = sent w0 @ map (crawl_request a b ps) [1..<k]"
    using n by auto
  from short crawl_loop_last[of net a b ps k body_k "concat (map ?pl [1..<k])" w1] obtain w2 where
    last: "crawl_loop net a b ps k (concat (map ?pl [1..<k])) w1 =
             Some (concat (map ?pl [1..<k]) @ get_data body_k, w2)"
    and w2: "sent w2 = sent w1 @ [crawl_request a b ps k]"
    by auto
  have pk: "?pl k = get_data body_k" using short by (simp add: payload_def)
  have upt: "[1..<Suc k] = [1..<k] @ [k]" using k by simp
  have "crawl_traders net a b ps w = Some (concat (map ?pl [1..<Suc k]), w2)"
    using w0 run last pk upt by simp
  moreover have "sent w2 = sent w @ map (crawl_request a b ps) [1..<Suc k]"
    using w0 w1 w2 upt by simp
  moreover have "length (concat (map ?pl [1..<Suc k])) = (\<Sum>i\<leftarrow>[1..<Suc k]. length (?pl i))"
    by (simp add: length_concat comp_def)
  ultimately show ?thesis by blast
qed

text \<open>
  C3. When the loop reaches page \<open>N\<close> (every earlier page was neither empty nor short) and
  the request for page \<open>N\<close> raises, \<open>crawl_traders\<close> returns at once: page \<open>N\<close> is the last
  request, the error line for page \<open>N\<close> is the last line printed, and the result is exactly
  the records of the pages 1 to \<open>N - 1\<close>, in the order received.
\<close>

theorem crawl_error_keeps_accumulated:
  assumes N: "1 \<le> N"
    and reach: "\<forall>i. 1 \<le> i \<and> i < N \<longrightarrow> continues ps (net (crawl_request a b ps i))"
    and err: "net (crawl_request a b ps N) = Raises e"
  shows "\<exists>w'. crawl_traders net a b ps w =
             Some (concat (map (\<lambda>i. payload (net (crawl_request a b ps i))) [1..<N]), w')
          \<and> sent w' = sent w @ map (crawl_request a b ps) [1..<Suc N]
          \<and> last (stdout w') = PageError N e
          \<and> files w' = files w"
proof -
  let ?pl = "\<lambda>i. payload (net (crawl_request a b ps i))"
  obtain n where n: "N = 1 + n" using N by (metis le_Suc_ex)
  have cont: "continues ps (net (crawl_request a b ps i))" if "1 \<le> i" "i < 1 + n" for i
    using reach that n by auto
  obtain w0 where w0: "crawl_traders net a b ps w = crawl_loop net a b ps 1 [] w0"
    "sent w0 = sent w" "files w0 = files w" using crawl_traders_unfold by blast
  from crawl_loop_run[of 1 n ps net a b "[]" w0] cont obtain w1 where
    run: "crawl_loop net a b ps 1 [] w0 = crawl_loop net a b ps N (concat (map ?pl [1..<N])) w1"
    and w1: "sent w1 = sent w0 @ map (crawl_request a b ps) [1..<N]" "files w1 = files w0"
    using n by auto
  let ?w2 = "print (PageError N e) (w1\<lparr>sent := sent w1 @ [crawl_request a b ps N]\<rparr>)"
  have stop: "crawl_loop net a b ps N (concat (map ?pl [1..<N])) w1 = Some (concat (map ?pl [1..<N]), ?w2)"
    using err by (rule crawl_loop_raises)
  have upt: "[1..<Suc N] = [1..<N] @ [N]" using N by simp
  have "crawl_traders net a b ps w = Some (concat (map ?pl [1..<N]), ?w2)"
    using w0 run stop by simp
  moreover have "sent ?w2 = sent w @ map (crawl_request a b ps) [1..<Suc N]"
    using w0 w1 upt by (simp add: print_def)
  moreover have "last (stdout ?w2) = PageError N e" "files ?w2 = files w"
    using w0 w1 by (simp_all add: print_def)
  ultimately show ?thesis by blast
qed

theorem crawl_stops_at_short_page_witness:
  "\<exists>w'. crawl_traders three_pages 67 30 2 world0 = Some ([alice, bob, carol, dave, erin], w')
        \<and> map page (sent w') = [1, 2, 3]
        \<and> length [alice, bob, carol, dave, erin] = 2 + 2 + 1"
proof -
  have full: "\<forall>i. 1 \<le> i \<and> i < 3 \<longrightarrow>
       (\<exists>body. three_pages (crawl_request 67 30 2 i) = Returns body \<and> int (length (get_data body)) = 2)"
  proof (intro allI impI)
    fix i :: nat assume "1 \<le> i \<and> i < 3"
    then have "i = 1 \<or> i = 2" by arith
    then show "\<exists>body. three_pages (crawl_request 67 30 2 i) = Returns body \<and> int (length (get_data body)) = 2"
      by (auto simp: three_pages_def crawl_request_def get_data_def)
  qed
  have short: "three_pages (crawl_request 67 30 2 3) = Returns (Some [erin])
       \<and> int (length (get_data (Some [erin]))) < 2"
    by (simp add: three_pages_def crawl_request_def get_data_def)
  have upt: "[1..<Suc 3] = [1, 2, 3]" by (simp add: upt_rec)
  from crawl_stops_at_short_page[of 3 three_pages 67 30 2 "Some [erin]" world0, OF _ full short]
  show ?thesis
    unfolding upt
    by (auto simp: three_pages_def crawl_request_def get_data_def payload_def world0_def)
qed

theorem crawl_error_keeps_accumulated_witness:
  "\<exists>w'. crawl_traders third_page_fails 67 30 2 world0 = Some ([alice, bob, carol, dave], w')
        \<and> map page (sent w') = [1, 2, 3]
        \<and> last (stdout w') = PageError 3 (HTTPError ''502 Server Error'')"
proof -
  have reach: "\<forall>i. 1 \<le> i \<and> i < 3 \<longrightarrow> continues 2 (third_page_fails (crawl_request 67 30 2 i))"
  proof (intro allI impI)
    fix i :: nat assume "1 \<le> i \<and> i < 3"
    then have "i = 1 \<or> i = 2" by arith
    then show "continues 2 (third_page_fails (crawl_request 67 30 2 i))"
      by (auto simp: third_page_fails_def crawl_request_def get_data_def continues_def)
  qed
  have err: "third_page_fails (crawl_request 67 30 2 3) = Raises (HTTPError ''502 Server Error'')"
    by (simp add: third_page_fails_def crawl_request_def)
  have upt: "[1..<Suc 3] = [1, 2, 3]" "[1..<3] = [1, 2]" by (simp_all add: upt_rec)
  from crawl_error_keeps_accumulated[of 3 2 third_page_fails 67 30 "HTTPError ''502 Server Error''" world0,
      OF _ reach err]
  show ?thesis
    unfolding upt
    by (auto simp: third_page_fails_def crawl_request_def get_data_def payload_def world0_def)
qed

lemma crawl_loop_files_aux:
  assumes "crawl_loop net a b ps pg acc w = Some r"
  shows "files (snd r) = files w"
proof (rule crawl_loop.raw_induct[where P = "\<lambda>net a b ps pg acc w r. files (snd r) = files w", OF _ assms])
  fix f :: "network \<Rightarrow> int \<Rightarrow> int \<Rightarrow> int \<Rightarrow> nat \<Rightarrow> trader list \<Rightarrow> world \<Rightarrow> (trader list \<times> world) option"
  fix net a b ps pg acc w r
  assume IH: "\<And>net a b ps pg acc w r. f net a b ps pg acc w = Some r \<Longrightarrow> files (snd r) = files w"
  assume body: "(case post net (crawl_request a b ps pg) w of
      (Raises e, w1) \<Rightarrow> Some (acc, print (PageError pg e) w1)
      | (Returns body, w1) \<Rightarrow>
          if get_data body = [] then Some (acc, w1)
          else if int (length (get_data body)) < ps
               then Some (acc @ get_data body,
                      print (PageLine pg (length (get_data body)) (length (acc @ get_data body))) w1)
               else f net a b ps (pg + 1) (acc @ get_data body)
                     (sleep (1 / 2)
                       (print (PageLine pg (length (get_data body)) (length (acc @ get_data body))) w1))) =
     Some r"
  show "files (snd r) = files w"
  proof (cases "net (crawl_request a b ps pg)")
    case (Raises e)
    with body show ?thesis by (auto simp: post_def print_def)
  next
    case (Returns bd)
    show ?thesis
    proof (cases "get_data bd = [] \<or> int (length (get_data bd)) < ps")
      case True
      with body Returns show ?thesis by (auto simp: post_def print_def split: if_splits)
    next
      case False
      with body Returns have "f net a b ps (pg + 1) (acc @ get_data bd)
                     (sleep (1 / 2)
                       (print (PageLine pg (length (get_data bd)) (length (acc @ get_data bd)))
                          (w\<lparr>sent := sent w @ [crawl_request a b ps pg]\<rparr>))) = Some r"
        by (simp add: post_def)
      from IH[OF this] show ?thesis by (simp add: sleep_def print_def)
    qed
  qed
qed

lemma crawl_traders_files:
  "crawl_traders net a b ps w = Some (ts, w') \<Longrightarrow> files w' = files w"
  using crawl_loop_files_aux[of net a b ps 1 "[]" "print (rule60 CHR ''-'') (print (CrawlHeader a b) w)" "(ts, w')"]
  by (simp add: crawl_traders_def print_def)

section \<open>The run of the crawler\<close>

text \<open>
  C9. When \<open>crawl_traders\<close> returns the empty list, \<open>main\<close> prints its message and returns
  without an exception; no file is written, so the files are those from before the run.
\<close>

theorem crawl_main_no_traders_no_file:
  assumes "crawl_traders net 67 30 100 w = Some ([], w1)"
  shows "crawl_main net dir w = Some (None, print (Text ''No traders found matching criteria.'') w1)
     \<and> files (print (Text ''No traders found matching criteria.'') w1) = files w"
  using assms crawl_traders_files[OF assms]
  by (simp add: crawl_main_def print_def)

lemma no_matches_run:
  "crawl_traders no_matches 67 30 100 world0 =
     Some ([], (print (rule60 CHR ''-'') (print (CrawlHeader 67 30) world0))
                 \<lparr>sent := [crawl_request 67 30 100 1]\<rparr>)"
  unfolding crawl_traders_def
  by (subst crawl_loop.simps) (simp add: no_matches_def post_def get_data_def world0_def print_def)

theorem crawl_main_no_traders_no_file_witness:
  "crawl_main no_matches ''/srv/scripts'' world0 =
     Some (None, print (Text ''No traders found matching criteria.'')
       ((print (rule60 CHR ''-'') (print (CrawlHeader 67 30) world0))\<lparr>sent := [crawl_request 67 30 100 1]\<rparr>))
   \<and> files (print (Text ''No traders found matching criteria.'')
       ((print (rule60 CHR ''-'') (print (CrawlHeader 67 30) world0))\<lparr>sent := [crawl_request 67 30 100 1]\<rparr>))
     = Map.empty"
  using crawl_main_no_traders_no_file [OF no_matches_run, of "''/srv/scripts''"]
  by (simp add: world0_def)

section \<open>Records with a missing key\<close>

lemma sports_only_snapshot:
  "snapshot_of (sports_only t) =
     (''Sports'', [t]) # map (\<lambda>c. (c, [])) (tl CATEGORIES)"
  by (simp add: snapshot_of_def CATEGORIES_def sports_only_def category_request_def payload_def get_data_def)

lemma sports_only_sorted:
  "sorted_items (snapshot_of (sports_only t)) = snapshot_of (sports_only t)"
  by (simp add: sports_only_snapshot sorted_items_def CATEGORIES_def)

lemma sports_only_status:
  "fst (categorize_main (sports_only t) dir w) =
     (case top_line t of Inl e \<Rightarrow> Some e
      | Inr m \<Rightarrow> (case add_trader ''Sports'' t [] of Inl e \<Rightarrow> Some e | Inr tc \<Rightarrow> None))"
  unfolding categorize_main_status sports_only_sorted
  by (simp add: sports_only_snapshot CATEGORIES_def trader_categories_def split: sum.splits)

lemma single_page_run:
  "\<exists>w1. crawl_traders (single_page t) 67 30 100 w = Some ([t], w1)"
  unfolding crawl_traders_def
  by (subst crawl_loop.simps) (simp add: single_page_def post_def get_data_def crawl_request_def)

lemma single_page_status:
  "map_option fst (crawl_main (single_page t) dir w) =
     Some (case top_name_line 1 t of Inl e \<Rightarrow> Some e
           | Inr m1 \<Rightarrow> (case top_stats_line t of Inl e \<Rightarrow> Some e | Inr m2 \<Rightarrow> None))"
proof -
  from single_page_run[of t w] obtain w1 where "crawl_traders (single_page t) 67 30 100 w = Some ([t], w1)"
    by blast
  then show ?thesis by (simp add: crawl_main_def split: sum.splits)
qed

text \<open>
  C8. For each of the keys \<open>trader\<close>, \<open>trader_name\<close>, \<open>overall_gain\<close>, \<open>win_rate\<close> and
  \<open>total_positions\<close> there is a response with a record lacking just that key for which
  the category script ends with the uncaught KeyError of that key, and one for which the
  crawler does; with the complete record both complete.
\<close>

theorem missing_key_ends_run:
  "fst (categorize_main (sports_only (without ''trader'' alice)) dir w) = Some (KeyError ''trader'')
   \<and> fst (categorize_main (sports_only (without ''trader_name'' alice)) dir w) = Some (KeyError ''trader_name'')
   \<and> fst (categorize_main (sports_only (without ''overall_gain'' alice)) dir w) = Some (KeyError ''overall_gain'')
   \<and> fst (categorize_main (sports_only (without ''win_rate'' alice)) dir w) = Some (KeyError ''win_rate'')
   \<and> fst (categorize_main (sports_only (without ''total_positions'' alice)) dir w) = Some (KeyError ''total_positions'')
   \<and> map_option fst (crawl_main (single_page (without ''trader'' alice)) dir w) = Some (Some (KeyError ''trader''))
   \<and> map_option fst (crawl_main (single_page (without ''trader_name'' alice)) dir w) = Some (Some (KeyError ''trader_name''))
   \<and> map_option fst (crawl_main (single_page (without ''overall_gain'' alice)) dir w) = Some (Some (KeyError ''overall_gain''))
   \<and> map_option fst (crawl_main (single_page (without ''win_rate'' alice)) dir w) = Some (Some (KeyError ''win_rate''))
   \<and> map_option fst (crawl_main (single_page (without ''total_positions'' alice)) dir w) = Some (Some (KeyError ''total_positions''))
   \<and> fst (categorize_main (sports_only alice) dir w) = None
   \<and> map_option fst (crawl_main (single_page alice) dir w) = Some None"
  unfolding sports_only_status single_page_status
  by (simp add: without_def alice_def mk_trader_def top_line_def top_name_line_def top_stats_line_def
      add_trader_def getitem_def format_float_def format_percent_def int_too_large_def slice10_def get_or_none_def)

text \<open>
  The same holds of a number that the format cannot convert: the OverflowError is not
  caught either.
\<close>

lemma overflow_ends_run:
  "fst (categorize_main (sports_only big_gain) dir w) = Some OverflowError
   \<and> map_option fst (crawl_main (single_page big_gain) dir w) = Some (Some OverflowError)"
  unfolding sports_only_status single_page_status
  by (simp add: big_gain_def mk_trader_def top_line_def top_name_line_def top_stats_line_def
      getitem_def format_float_def format_percent_def int_too_large_def slice10_def
      del: of_int_floor_cancel)

end
